theory Spec2Isabelle
  imports Main "HOL-Library.Multiset" "HOL-Library.Char_ord" "HOL-Library.List_Lexorder"
begin

section \<open>Versions of tag names\<close>

text \<open>
  The program orders tag names with \<^verbatim>\<open>packaging.version.parse\<close>, a library function that
  either returns a totally ordered \<^verbatim>\<open>Version\<close> or raises \<^verbatim>\<open>InvalidVersion\<close>. The library is
  not part of the repository, so every function below takes the parser as its first argument
  \<open>parse\<close>: \<open>None\<close> stands for \<^verbatim>\<open>InvalidVersion\<close>, and the versions are any linear order.

  For evaluating the functions on concrete tag names, \<open>parse_release\<close> follows the library on
  the names made of an optional leading \<^verbatim>\<open>v\<close> and dot-separated decimal numbers
  (\<^verbatim>\<open>1.2.0\<close>, \<^verbatim>\<open>v2.10\<close>): there the library compares the tuples of numbers with
  the trailing zeros removed, so that \<^verbatim>\<open>1.0\<close> and \<^verbatim>\<open>1.0.0\<close> are equal versions. Every
  other name is taken as invalid, which is what the library answers for names such as
  \<^verbatim>\<open>main\<close> or \<^verbatim>\<open>not-a-version\<close>.
\<close>

definition is_digit :: "char \<Rightarrow> bool" where
  "is_digit c = (c \<in> set ''0123456789'')"

definition digit_val :: "char \<Rightarrow> nat" where
  "digit_val c = of_char c - of_char CHR ''0''"

definition int_of_digits :: "string \<Rightarrow> nat" where
  "int_of_digits s = foldl (\<lambda>n c. 10 * n + digit_val c) 0 s"

fun split_char :: "char \<Rightarrow> string \<Rightarrow> string list" where
  "split_char sep [] = [[]]"
| "split_char sep (c # cs) =
     (if c = sep then [] # split_char sep cs
      else (case split_char sep cs of
              [] \<Rightarrow> [[c]]
            | w # ws \<Rightarrow> (c # w) # ws))"

definition strip_trailing_zeros :: "nat list \<Rightarrow> nat list" where
  "strip_trailing_zeros ns = rev (dropWhile (\<lambda>n. n = 0) (rev ns))"

definition parse_release :: "string \<Rightarrow> nat list option" where
  "parse_release name =
     (let body = (case name of c # cs \<Rightarrow> if c = CHR ''v'' then cs else name | [] \<Rightarrow> name);
          segs = split_char CHR ''.'' body
      in if list_all (\<lambda>seg. seg \<noteq> [] \<and> list_all is_digit seg) segs
         then Some (strip_trailing_zeros (map int_of_digits segs))
         else None)"

section \<open>The version index: \<^verbatim>\<open>get_sorted_tags\<close>\<close>

text \<open>
  \<^verbatim>\<open>list.sort(key=..., reverse=True)\<close> is a stable sort in descending order of the key:
  elements with equal keys keep their order. It is the stable ascending sort applied to the
  reversed list, reversed again.
\<close>

definition sort_reverse :: "('a \<Rightarrow> 'k::linorder) \<Rightarrow> 'a list \<Rightarrow> 'a list" where
  "sort_reverse key xs = rev (sort_key key (rev xs))"

text \<open>
  The loop over \<^verbatim>\<open>all_tags\<close>: a name that parses is appended with its version, a name that
  raises \<^verbatim>\<open>InvalidVersion\<close> is passed over.
\<close>

fun valid_tags :: "(string \<Rightarrow> 'v option) \<Rightarrow> string list \<Rightarrow> (string \<times> 'v) list" where
  "valid_tags parse [] = []"
| "valid_tags parse (tag # tags) =
     (case parse tag of
        Some v \<Rightarrow> (tag, v) # valid_tags parse tags
      | None \<Rightarrow> valid_tags parse tags)"

definition get_sorted_tags :: "(string \<Rightarrow> 'v::linorder option) \<Rightarrow> string list \<Rightarrow> string list" where
  "get_sorted_tags parse all_tags = map fst (sort_reverse snd (valid_tags parse all_tags))"

section \<open>Strings\<close>

text \<open>Decimal output of a count, as an f-string prints an \<^verbatim>\<open>int\<close>.\<close>

fun show_nat :: "nat \<Rightarrow> string" where
  "show_nat n =
     (if n < 10 then [''0123456789'' ! n]
      else show_nat (n div 10) @ [''0123456789'' ! (n mod 10)])"

declare show_nat.simps [simp del]

fun starts_with :: "string \<Rightarrow> string \<Rightarrow> bool" where
  "starts_with [] s = True"
| "starts_with (p # ps) [] = False"
| "starts_with (p # ps) (c # cs) = (p = c \<and> starts_with ps cs)"

text \<open>\<^verbatim>\<open>pat in s\<close> on strings.\<close>

fun contains :: "string \<Rightarrow> string \<Rightarrow> bool" where
  "contains pat [] = (pat = [])"
| "contains pat (c # cs) = (starts_with pat (c # cs) \<or> contains pat cs)"

text \<open>
  \<^verbatim>\<open>s.split(sep)\<close> for a separator that is not empty (the program only splits at the
  constant \<^verbatim>\<open>"HEAD branch:"\<close>).
\<close>

function split_str :: "string \<Rightarrow> string \<Rightarrow> string list" where
  "split_str sep [] = [[]]"
| "split_str sep (c # cs) =
     (if sep \<noteq> [] \<and> starts_with sep (c # cs)
      then [] # split_str sep (drop (length sep) (c # cs))
      else (case split_str sep cs of
              [] \<Rightarrow> [[c]]
            | w # ws \<Rightarrow> (c # w) # ws))"
  by pat_completeness auto
termination
  by (relation "measure (\<lambda>(sep, s). length s)") auto

text \<open>
  \<^verbatim>\<open>s.strip()\<close> removes white space at both ends. Strings are held in UTF-8, so the
  white space of Python (the characters for which \<^verbatim>\<open>str.isspace\<close> holds) is a byte, or a
  sequence of two or three bytes: U+0009 to U+000D, U+001C to U+0020; U+0085 and U+00A0;
  U+1680, U+2000 to U+200A, U+2028, U+2029, U+202F, U+205F and U+3000.
\<close>

definition is_space :: "char \<Rightarrow> bool" where
  "is_space c = (c \<in> set [CHR 0x20, CHR 0x09, CHR 0x0A, CHR 0x0B, CHR 0x0C, CHR 0x0D,
                            CHR 0x1C, CHR 0x1D, CHR 0x1E, CHR 0x1F])"

definition is_space2 :: "char \<Rightarrow> char \<Rightarrow> bool" where
  "is_space2 c1 c2 = (c1 = CHR 0xC2 \<and> (c2 = CHR 0x85 \<or> c2 = CHR 0xA0))"

definition is_space3 :: "char \<Rightarrow> char \<Rightarrow> char \<Rightarrow> bool" where
  "is_space3 c1 c2 c3 =
     ((c1 = CHR 0xE1 \<and> c2 = CHR 0x9A \<and> c3 = CHR 0x80)
      \<or> (c1 = CHR 0xE2 \<and> c2 = CHR 0x80
          \<and> c3 \<in> set [CHR 0x80, CHR 0x81, CHR 0x82, CHR 0x83, CHR 0x84, CHR 0x85, CHR 0x86,
                        CHR 0x87, CHR 0x88, CHR 0x89, CHR 0x8A, CHR 0xA8, CHR 0xA9, CHR 0xAF])
      \<or> (c1 = CHR 0xE2 \<and> c2 = CHR 0x81 \<and> c3 = CHR 0x9F)
      \<or> (c1 = CHR 0xE3 \<and> c2 = CHR 0x80 \<and> c3 = CHR 0x80))"

text \<open>White space removed at the start of a string.\<close>

fun lstrip :: "string \<Rightarrow> string" where
  "lstrip (c1 # c2 # c3 # cs) =
     (if is_space c1 then lstrip (c2 # c3 # cs)
      else if is_space2 c1 c2 then lstrip (c3 # cs)
      else if is_space3 c1 c2 c3 then lstrip cs
      else c1 # c2 # c3 # cs)"
| "lstrip [c1, c2] =
     (if is_space c1 then lstrip [c2]
      else if is_space2 c1 c2 then []
      else [c1, c2])"
| "lstrip [c1] = (if is_space c1 then [] else [c1])"
| "lstrip [] = []"

text \<open>
  White space removed at the end of a string, on the reversed string: the bytes of a
  character come last byte first.
\<close>

fun rstrip_reversed :: "string \<Rightarrow> string" where
  "rstrip_reversed (c3 # c2 # c1 # cs) =
     (if is_space c3 then rstrip_reversed (c2 # c1 # cs)
      else if is_space2 c2 c3 then rstrip_reversed (c1 # cs)
      else if is_space3 c1 c2 c3 then rstrip_reversed cs
      else c3 # c2 # c1 # cs)"
| "rstrip_reversed [c2, c1] =
     (if is_space c2 then rstrip_reversed [c1]
      else if is_space2 c1 c2 then []
      else [c2, c1])"
| "rstrip_reversed [c1] = (if is_space c1 then [] else [c1])"
| "rstrip_reversed [] = []"

definition strip :: "string \<Rightarrow> string" where
  "strip s = rev (rstrip_reversed (rev (lstrip s)))"

text \<open>The star U+2605 of the menu titles, in UTF-8.\<close>

definition star :: string where
  "star = [CHR 0xE2, CHR 0x98, CHR 0x85]"

section \<open>The repository as the program reads it\<close>

text \<open>
  What the program asks of GitPython, one field per call. A field of type \<open>option\<close> is
  \<open>None\<close> when the call raises, except \<open>head_branch\<close> and \<open>tracking_branch\<close>, where
  \<open>None\<close> is a detached HEAD and a branch without tracking branch.
\<close>

record repo =
  fetch_ok :: bool
    \<comment> \<open>\<^verbatim>\<open>repo.remotes.origin\<close> exists and \<^verbatim>\<open>origin.fetch(tags=True)\<close> returns\<close>
  tag_names :: "string list"
    \<comment> \<open>\<^verbatim>\<open>[t.name for t in repo.tags]\<close>\<close>
  head_branch :: "string option"
    \<comment> \<open>\<^verbatim>\<open>repo.active_branch.name\<close>, \<open>None\<close> when \<^verbatim>\<open>repo.head.is_detached\<close>\<close>
  tracking_branch :: "string option"
    \<comment> \<open>the name of \<^verbatim>\<open>active_branch.tracking_branch()\<close>\<close>
  behind_tracking :: "nat option"
    \<comment> \<open>the number of commits of \<^verbatim>\<open>iter_commits('<active>..<tracking>')\<close>\<close>
  tags_at_head :: "string option"
    \<comment> \<open>the output of \<^verbatim>\<open>repo.git.tag(points_at=repo.head.commit.hexsha)\<close>\<close>
  remote_show :: "string list option"
    \<comment> \<open>the lines (\<^verbatim>\<open>splitlines()\<close>) of \<^verbatim>\<open>repo.git.remote("show", "origin")\<close>\<close>
  behind_ref :: "string \<Rightarrow> nat option"
    \<comment> \<open>the number of commits of \<^verbatim>\<open>iter_commits('HEAD..<ref>')\<close>\<close>

datatype git_cmd = Checkout string | Fetch | ResetHard string | Pull | GcAuto

datatype error = GitError | GitCommandError git_cmd | UnicodeDecodeError | IndexError

text \<open>\<^verbatim>\<open>current_tags_str.split('\n') if current_tags_str else []\<close>\<close>

definition current_tags :: "string \<Rightarrow> string list" where
  "current_tags current_tags_str =
     (if current_tags_str \<noteq> [] then split_char (CHR 0x0A) current_tags_str else [])"

text \<open>
  The scan of the output of \<^verbatim>\<open>git remote show origin\<close>: the first line that contains
  \<^verbatim>\<open>HEAD branch:\<close> gives the default branch, \<^verbatim>\<open>line.split("HEAD branch:")[1].strip()\<close>.
\<close>

fun find_default_branch :: "string list \<Rightarrow> error + string option" where
  "find_default_branch [] = Inr None"
| "find_default_branch (line # rest) =
     (if contains ''HEAD branch:'' line
      then (case split_str ''HEAD branch:'' line of
              _ # part # _ \<Rightarrow> Inr (Some (strip part))
            | _ \<Rightarrow> Inl IndexError)
      else find_default_branch rest)"

text \<open>The truth value of an optional string: \<^verbatim>\<open>None\<close> and \<^verbatim>\<open>""\<close> are false.\<close>

definition truthy :: "string option \<Rightarrow> bool" where
  "truthy s = (s \<noteq> None \<and> s \<noteq> Some [])"

definition latest_of :: "string list \<Rightarrow> string option" where
  "latest_of sorted_tags = (case sorted_tags of [] \<Rightarrow> None | t # _ \<Rightarrow> Some t)"

text \<open>
  \<^verbatim>\<open>version.parse(latest_tag) > version.parse(current_tag_name)\<close> inside
  \<^verbatim>\<open>try ... except version.InvalidVersion: pass\<close>: false when either name is invalid.
\<close>

definition newer_version :: "(string \<Rightarrow> 'v::linorder option) \<Rightarrow> string \<Rightarrow> string \<Rightarrow> bool" where
  "newer_version parse latest_tag current_tag_name =
     (case parse latest_tag of
        None \<Rightarrow> False
      | Some l \<Rightarrow> (case parse current_tag_name of None \<Rightarrow> False | Some c \<Rightarrow> l > c))"

section \<open>The detector: \<^verbatim>\<open>has_remote_updates\<close>\<close>

record update_info =
  update_type :: string
  current :: string
  latest :: string
  behind_count :: "nat option"
  message :: string

text \<open>The current tag of the detector (lines 381 to 386).\<close>

definition detector_current_tag :: "repo \<Rightarrow> string list \<Rightarrow> string option" where
  "detector_current_tag r tags =
     (if tags \<noteq> [] then
        (case head_branch r of
           Some b \<Rightarrow> if b \<in> set tags then Some b else Some (hd tags)
         | None \<Rightarrow> Some (hd tags))
      else None)"

text \<open>
  The third check (lines 403 to 425) and the final \<^verbatim>\<open>return False, {}\<close>.
\<close>

definition check_default_branch :: "repo \<Rightarrow> error + bool \<times> update_info option" where
  "check_default_branch r =
     (case remote_show r of
        None \<Rightarrow> Inl GitError
      | Some show_lines \<Rightarrow>
          (case find_default_branch show_lines of
             Inl e \<Rightarrow> Inl e
           | Inr default_branch \<Rightarrow>
               if truthy default_branch then
                 (case behind_ref r (''origin/'' @ the default_branch) of
                    None \<Rightarrow> Inr (False, None)
                  | Some behind \<Rightarrow>
                      if behind > 0 then
                        Inr (True, Some \<lparr>update_type = ''default_branch'', current = ''HEAD'',
                               latest = the default_branch, behind_count = Some behind,
                               message = the default_branch @ '' is '' @ show_nat behind
                                         @ '' commits ahead''\<rparr>)
                      else Inr (False, None))
               else Inr (False, None)))"

text \<open>The second check (lines 377 to 401), followed by the third.\<close>

definition check_tags ::
  "(string \<Rightarrow> 'v::linorder option) \<Rightarrow> repo \<Rightarrow> error + bool \<times> update_info option" where
  "check_tags parse r =
     (case tags_at_head r of
        None \<Rightarrow> Inl GitError
      | Some current_tags_str \<Rightarrow>
          (let current_tag_name = detector_current_tag r (current_tags current_tags_str);
               sorted_tags = get_sorted_tags parse (tag_names r);
               latest_tag = latest_of sorted_tags
           in if truthy latest_tag \<and> truthy current_tag_name
                 \<and> newer_version parse (the latest_tag) (the current_tag_name)
              then Inr (True, Some \<lparr>update_type = ''tag'', current = the current_tag_name,
                          latest = the latest_tag, behind_count = None,
                          message = the current_tag_name @ '' -> '' @ the latest_tag\<rparr>)
              else check_default_branch r))"

text \<open>The body of the \<^verbatim>\<open>try\<close> (lines 359 to 427): the first check, then the others.\<close>

definition detect ::
  "(string \<Rightarrow> 'v::linorder option) \<Rightarrow> repo \<Rightarrow> error + bool \<times> update_info option" where
  "detect parse r =
     (if \<not> fetch_ok r then Inl GitError
      else (case head_branch r of
              None \<Rightarrow> check_tags parse r
            | Some active \<Rightarrow>
                (case tracking_branch r of
                   None \<Rightarrow> check_tags parse r
                 | Some tracking \<Rightarrow>
                     (case behind_tracking r of
                        None \<Rightarrow> Inl GitError
                      | Some behind \<Rightarrow>
                          if behind > 0 then
                            Inr (True, Some \<lparr>update_type = ''branch'', current = active,
                                   latest = tracking, behind_count = Some behind,
                                   message = show_nat behind @ '' commits behind''\<rparr>)
                          else check_tags parse r))))"

text \<open>
  \<open>has_remote_updates\<close> takes the result of \<^verbatim>\<open>git.Repo(repo_path)\<close>: \<open>None\<close> when the path
  is not a repository. Every exception gives \<^verbatim>\<open>(False, {})\<close>; the empty dictionary is
  \<open>None\<close>.
\<close>

definition has_remote_updates ::
  "(string \<Rightarrow> 'v::linorder option) \<Rightarrow> repo option \<Rightarrow> bool \<times> update_info option" where
  "has_remote_updates parse opened =
     (case opened of
        None \<Rightarrow> (False, None)
      | Some r \<Rightarrow> (case detect parse r of Inl e \<Rightarrow> (False, None) | Inr res \<Rightarrow> res))"

section \<open>The menu of \<^verbatim>\<open>check_remote_updates\<close>\<close>

text \<open>
  A selection is the dictionary \<^verbatim>\<open>{'action': ..., 'target': ...}\<close> carried by a menu entry.
  The entry \<^verbatim>\<open>Cancel\<close> carries the empty string, which is false like \<^verbatim>\<open>None\<close>: both are
  \<open>None\<close> here.
\<close>

record selection =
  action :: string
  target :: string

datatype choice = Choice string "selection option" | Separator

text \<open>The current tag of the menu (lines 473 to 478).\<close>

definition menu_current_tag :: "repo \<Rightarrow> string list \<Rightarrow> string option" where
  "menu_current_tag r tags =
     (if tags \<noteq> [] then
        (case head_branch r of
           Some b \<Rightarrow> Some b
         | None \<Rightarrow> Some (hd tags))
      else None)"

text \<open>
  The entry of the default branch (lines 485 to 500); every exception of this part is
  passed over and leaves the menu as it is.
\<close>

definition default_branch_choices :: "repo \<Rightarrow> choice list" where
  "default_branch_choices r =
     (case remote_show r of
        None \<Rightarrow> []
      | Some show_lines \<Rightarrow>
          (case find_default_branch show_lines of
             Inl e \<Rightarrow> []
           | Inr default_branch \<Rightarrow>
               if truthy default_branch
                  \<and> (head_branch r = None \<or> the (head_branch r) \<noteq> the default_branch)
               then [Choice (star @ '' Checkout and Pull latest remote ('' @ the default_branch @ '')'')
                       (Some \<lparr>action = ''checkout_pull'', target = the default_branch\<rparr>)]
               else []))"

text \<open>The entry of the tracked branch (lines 505 to 517).\<close>

definition pull_choices :: "repo \<Rightarrow> bool \<Rightarrow> error + choice list" where
  "pull_choices r reset =
     (case head_branch r of
        None \<Rightarrow> Inr []
      | Some active \<Rightarrow>
          (case tracking_branch r of
             None \<Rightarrow> Inr []
           | Some tracking \<Rightarrow>
               (case behind_tracking r of
                  None \<Rightarrow> Inl GitError
                | Some behind \<Rightarrow>
                    if behind > 0 \<or> reset then
                      Inr [Choice (star @ '' Pull '' @ active
                                   @ (if behind > 0
                                      then '' ('' @ show_nat behind @ '' commits behind)''
                                      else []))
                             (Some \<lparr>action = ''pull'', target = active\<rparr>)]
                    else Inr [])))"

text \<open>The entry of the newest tag (lines 519 to 534).\<close>

definition latest_tag_choices ::
  "(string \<Rightarrow> 'v::linorder option) \<Rightarrow> string option \<Rightarrow> string option \<Rightarrow> choice list" where
  "latest_tag_choices parse current_tag_name latest_tag =
     (if truthy latest_tag then
        (let is_newer = (truthy current_tag_name
                         \<and> newer_version parse (the latest_tag) (the current_tag_name))
         in [Choice (the latest_tag @ (if is_newer then '' (Latest)'' else []))
               (Some \<lparr>action = ''checkout'', target = the latest_tag\<rparr>)])
      else [])"

text \<open>The entries of the other tags (lines 536 to 539).\<close>

definition other_tag_choices :: "string list \<Rightarrow> string option \<Rightarrow> choice list" where
  "other_tag_choices sorted_tags latest_tag =
     map (\<lambda>tag. Choice tag (Some \<lparr>action = ''checkout'', target = tag\<rparr>))
       (filter (\<lambda>tag. Some tag \<noteq> latest_tag) (take 10 sorted_tags))"

text \<open>
  The list \<^verbatim>\<open>choices\<close> when line 541 is reached (lines 452 to 539), or the exception that
  the outer \<^verbatim>\<open>try\<close> catches.
\<close>

definition menu_choices ::
  "(string \<Rightarrow> 'v::linorder option) \<Rightarrow> repo \<Rightarrow> bool \<Rightarrow> error + choice list" where
  "menu_choices parse r reset =
     (if \<not> fetch_ok r then Inl GitError
      else (case tags_at_head r of
              None \<Rightarrow> Inl GitError
            | Some current_tags_str \<Rightarrow>
                (let current_tag_name = menu_current_tag r (current_tags current_tags_str);
                     sorted_tags = get_sorted_tags parse (tag_names r);
                     latest_tag = latest_of sorted_tags
                 in (case pull_choices r reset of
                       Inl e \<Rightarrow> Inl e
                     | Inr pull \<Rightarrow>
                         Inr (default_branch_choices r @ pull
                              @ latest_tag_choices parse current_tag_name latest_tag
                              @ other_tag_choices sorted_tags latest_tag)))))"

section \<open>The reconciliation: \<^verbatim>\<open>perform_update\<close>\<close>

text \<open>
  The two manifests as the program finds them. \<open>BadPyproject\<close> is a file whose reading or
  parsing raises; \<open>Pyproject deps\<close> is a file where
  \<^verbatim>\<open>data.get('project', {}).get('dependencies', [])\<close> is \<open>deps\<close>. For the requirements,
  \<open>RequirementsIOError\<close> is a path that exists and whose reading raises \<^verbatim>\<open>IOError\<close>,
  \<open>RequirementsNotUtf8\<close> one whose decoding raises \<^verbatim>\<open>UnicodeDecodeError\<close> (which is not an
  \<^verbatim>\<open>IOError\<close>), and \<open>Requirements ls\<close> a file whose \<^verbatim>\<open>readlines()\<close> is \<open>ls\<close>.
\<close>

datatype pyproject_file = NoPyproject | BadPyproject | Pyproject "string list"

datatype requirements_file =
  NoRequirements | RequirementsIOError | RequirementsNotUtf8 | Requirements "string list"

text \<open>
  The world around one call: whether \<^verbatim>\<open>shutil.which('uv')\<close> finds a program, which git
  commands succeed, the manifests before and after the git operations, and the answer of
  \<^verbatim>\<open>install_requirements_uv\<close> (\<^verbatim>\<open>"sync"\<close>, \<^verbatim>\<open>"requirements"\<close> or \<^verbatim>\<open>None\<close>).
\<close>

record world =
  uv_installed :: bool
  git_ok :: "git_cmd \<Rightarrow> bool"
  pyproject_before :: pyproject_file
  pyproject_after :: pyproject_file
  reqs_before :: requirements_file
  reqs_after :: requirements_file
  uv_answer :: "string option"

text \<open>
  What a call does, in order: the git commands it runs, and the change reports. A report
  of \<^verbatim>\<open>pyproject.toml\<close> is the printed diff of the two sorted lists followed by the call
  of \<^verbatim>\<open>install_requirements_uv\<close>; a report of \<^verbatim>\<open>requirements.txt\<close> is the printed diff of
  the two lists of lines followed by the call of \<^verbatim>\<open>install_requirements\<close>.
\<close>

datatype event =
  Git git_cmd
| PyprojectChanged "string list" "string list"
| RequirementsChanged "string list" "string list"

text \<open>A computation: the events so far, and the exception if one was raised.\<close>

type_synonym trace = "event list \<times> error option"

definition git :: "world \<Rightarrow> git_cmd \<Rightarrow> trace" where
  "git w c = ([Git c], if git_ok w c then None else Some (GitCommandError c))"

definition then_do :: "trace \<Rightarrow> trace \<Rightarrow> trace" where
  "then_do m k = (case snd m of None \<Rightarrow> (fst m @ fst k, snd k) | Some e \<Rightarrow> m)"

text \<open>\<^verbatim>\<open>try: m except Exception: h\<close>\<close>

definition on_exception :: "trace \<Rightarrow> trace \<Rightarrow> trace" where
  "on_exception m h = (case snd m of None \<Rightarrow> m | Some e \<Rightarrow> (fst m @ fst h, snd h))"

definition snapshot_deps :: "pyproject_file \<Rightarrow> string list option" where
  "snapshot_deps f = (case f of Pyproject deps \<Rightarrow> Some (sort deps) | _ \<Rightarrow> None)"

text \<open>Lines 217 to 229.\<close>

definition before_deps :: "world \<Rightarrow> string list option" where
  "before_deps w =
     (if uv_installed w \<and> pyproject_before w \<noteq> NoPyproject
      then snapshot_deps (pyproject_before w) else None)"

text \<open>Lines 232 to 239 and 315 to 321.\<close>

definition read_requirements :: "requirements_file \<Rightarrow> error + string list" where
  "read_requirements f =
     (case f of
        NoRequirements \<Rightarrow> Inr []
      | RequirementsIOError \<Rightarrow> Inr []
      | RequirementsNotUtf8 \<Rightarrow> Inl UnicodeDecodeError
      | Requirements ls \<Rightarrow> Inr ls)"

text \<open>The git operations (lines 242 to 277); \<open>None\<close> is the unknown action, which returns.\<close>

definition git_action :: "world \<Rightarrow> string \<Rightarrow> string \<Rightarrow> bool \<Rightarrow> trace option" where
  "git_action w act tgt reset =
     (if act = ''checkout'' then
        Some (if reset then
                then_do (git w (Checkout tgt))
                  (on_exception
                     (then_do (git w Fetch) (git w (ResetHard (''origin/'' @ tgt))))
                     (git w (ResetHard tgt)))
              else git w (Checkout tgt))
      else if act = ''pull'' then
        Some (if reset then then_do (git w Fetch) (git w (ResetHard (''origin/'' @ tgt)))
              else git w Pull)
      else if act = ''checkout_pull'' then
        Some (then_do (git w (Checkout tgt))
                (if reset then git w (ResetHard (''origin/'' @ tgt)) else git w Pull))
      else None)"

text \<open>Lines 314 to 336.\<close>

definition report_requirements :: "world \<Rightarrow> string list \<Rightarrow> trace" where
  "report_requirements w before_reqs =
     (case read_requirements (reqs_after w) of
        Inl e \<Rightarrow> ([], Some e)
      | Inr after_reqs \<Rightarrow>
          (if before_reqs \<noteq> after_reqs then [RequirementsChanged before_reqs after_reqs] else [],
           None))"

text \<open>Lines 283 to 336.\<close>

definition report_changes :: "world \<Rightarrow> string list option \<Rightarrow> string list \<Rightarrow> trace" where
  "report_changes w deps_before before_reqs =
     (case deps_before of
        None \<Rightarrow> report_requirements w before_reqs
      | Some b \<Rightarrow>
          (case snapshot_deps (pyproject_after w) of
             None \<Rightarrow> report_requirements w before_reqs
           | Some a \<Rightarrow>
               if b \<noteq> a then
                 (if uv_answer w \<noteq> Some ''requirements'' then ([PyprojectChanged b a], None)
                  else then_do ([PyprojectChanged b a], None) (report_requirements w before_reqs))
               else report_requirements w before_reqs))"

definition perform_update :: "world \<Rightarrow> selection option \<Rightarrow> bool \<Rightarrow> trace" where
  "perform_update w sel reset =
     (case sel of
        None \<Rightarrow> ([], None)
      | Some s \<Rightarrow>
          (case read_requirements (reqs_before w) of
             Inl e \<Rightarrow> ([], Some e)
           | Inr before_reqs \<Rightarrow>
               (case git_action w (action s) (target s) reset of
                  None \<Rightarrow> ([], None)
                | Some operations \<Rightarrow>
                    then_do operations
                      (then_do (git w GcAuto)
                         (report_changes w (before_deps w) before_reqs)))))"

text \<open>The change reports among the events.\<close>

fun is_report :: "event \<Rightarrow> bool" where
  "is_report (Git c) = False"
| "is_report (PyprojectChanged b a) = True"
| "is_report (RequirementsChanged b a) = True"

section \<open>The whole run: \<^verbatim>\<open>check_remote_updates\<close>\<close>

text \<open>
  How a run ends: the path is not a repository; an exception was caught and printed
  (with the events up to it); the menu was empty; the user cancelled; or the selected
  action was performed. \<open>ask\<close> is the user in front of the menu.
\<close>

datatype run =
  NotAGitRepository
| AnErrorOccurred error "event list"
| NoUpdatesAvailable
| Cancelled "choice list"
| Performed "choice list" "event list"

definition check_remote_updates ::
  "(string \<Rightarrow> 'v::linorder option) \<Rightarrow> repo option \<Rightarrow> world \<Rightarrow> bool
     \<Rightarrow> (choice list \<Rightarrow> selection option) \<Rightarrow> run" where
  "check_remote_updates parse opened w reset ask =
     (case opened of
        None \<Rightarrow> NotAGitRepository
      | Some r \<Rightarrow>
          (case menu_choices parse r reset of
             Inl e \<Rightarrow> AnErrorOccurred e []
           | Inr choices \<Rightarrow>
               if choices = [] then NoUpdatesAvailable
               else (let menu = choices @ [Separator, Choice ''Cancel'' None]
                     in (case ask menu of
                           None \<Rightarrow> Cancelled menu
                         | Some s \<Rightarrow>
                             (case perform_update w (Some s) reset of
                                (events, Some e) \<Rightarrow> AnErrorOccurred e events
                              | (events, None) \<Rightarrow> Performed menu events)))))"

section \<open>Reading a trace\<close>

text \<open>
  The events before the maintenance pass \<^verbatim>\<open>git gc --auto\<close>: the git operations of the
  selected action.
\<close>

definition operations :: "trace \<Rightarrow> event list" where
  "operations tr = takeWhile (\<lambda>e. e \<noteq> Git GcAuto) (fst tr)"

text \<open>The change reports of a call.\<close>

definition reports :: "trace \<Rightarrow> event list" where
  "reports tr = filter is_report (fst tr)"

text \<open>The change reports of \<^verbatim>\<open>requirements.txt\<close> of a call.\<close>

fun is_requirements_report :: "event \<Rightarrow> bool" where
  "is_requirements_report (Git c) = False"
| "is_requirements_report (PyprojectChanged b a) = False"
| "is_requirements_report (RequirementsChanged b a) = True"

definition requirements_reports :: "trace \<Rightarrow> event list" where
  "requirements_reports tr = filter is_requirements_report (fst tr)"

text \<open>A \<^verbatim>\<open>pyproject.toml\<close> that is absent or cannot be read and parsed.\<close>

definition unreadable :: "pyproject_file \<Rightarrow> bool" where
  "unreadable f = (f = NoPyproject \<or> f = BadPyproject)"

text \<open>The entries of a menu that pull the tracked branch, and those that check out a tag.\<close>

fun is_pull_choice :: "choice \<Rightarrow> bool" where
  "is_pull_choice (Choice title (Some s)) = (action s = ''pull'')"
| "is_pull_choice (Choice title None) = False"
| "is_pull_choice Separator = False"

definition pull_entries :: "error + choice list \<Rightarrow> choice list option" where
  "pull_entries m = (case m of Inl e \<Rightarrow> None | Inr choices \<Rightarrow> Some (filter is_pull_choice choices))"

fun is_tag_choice :: "choice \<Rightarrow> bool" where
  "is_tag_choice (Choice title (Some s)) = (action s = ''checkout'')"
| "is_tag_choice (Choice title None) = False"
| "is_tag_choice Separator = False"

section \<open>Concrete worlds\<close>

text \<open>
  Worlds on which the functions are evaluated: one where nothing is there and every git
  command succeeds; one where \<^verbatim>\<open>requirements.txt\<close> appears with the update; one where
  \<^verbatim>\<open>pyproject.toml\<close> stays as it is and \<^verbatim>\<open>requirements.txt\<close> becomes readable; one where both
  manifests only change the order of their entries; one without \<^verbatim>\<open>uv\<close> where both
  manifests gain a dependency; one where the maintenance pass fails while
  \<^verbatim>\<open>requirements.txt\<close> gains a line.
\<close>

definition quiet_world :: world where
  "quiet_world = \<lparr>uv_installed = False, git_ok = (\<lambda>c. True),
      pyproject_before = NoPyproject, pyproject_after = NoPyproject,
      reqs_before = NoRequirements, reqs_after = NoRequirements, uv_answer = None\<rparr>"

definition new_requirements_world :: world where
  "new_requirements_world = \<lparr>uv_installed = True, git_ok = (\<lambda>c. True),
      pyproject_before = NoPyproject, pyproject_after = Pyproject [''requests''],
      reqs_before = NoRequirements, reqs_after = Requirements [''requests\<newline>''],
      uv_answer = None\<rparr>"

definition same_pyproject_world :: world where
  "same_pyproject_world = \<lparr>uv_installed = True, git_ok = (\<lambda>c. True),
      pyproject_before = Pyproject [''requests''], pyproject_after = Pyproject [''requests''],
      reqs_before = RequirementsIOError, reqs_after = Requirements [''requests\<newline>''],
      uv_answer = None\<rparr>"

definition reordered_world :: world where
  "reordered_world = \<lparr>uv_installed = True, git_ok = (\<lambda>c. True),
      pyproject_before = Pyproject [''a'', ''b''], pyproject_after = Pyproject [''b'', ''a''],
      reqs_before = Requirements [''a\<newline>'', ''b\<newline>''],
      reqs_after = Requirements [''b\<newline>'', ''a\<newline>''],
      uv_answer = None\<rparr>"

definition no_uv_world :: world where
  "no_uv_world = \<lparr>uv_installed = False, git_ok = (\<lambda>c. True),
      pyproject_before = Pyproject [''numpy''], pyproject_after = Pyproject [''numpy'', ''scipy''],
      reqs_before = Requirements [''numpy\<newline>''],
      reqs_after = Requirements [''numpy\<newline>'', ''scipy\<newline>''],
      uv_answer = None\<rparr>"

definition gc_failure_world :: world where
  "gc_failure_world = \<lparr>uv_installed = False, git_ok = (\<lambda>c. c \<noteq> GcAuto),
      pyproject_before = NoPyproject, pyproject_after = NoPyproject,
      reqs_before = Requirements [''numpy\<newline>''],
      reqs_after = Requirements [''numpy\<newline>'', ''scipy\<newline>''],
      uv_answer = None\<rparr>"

section \<open>Concrete repositories\<close>

text \<open>
  A branch that is level with its tracking branch, in a repository without tags; a branch
  two commits behind its tracking branch, checked out at the tag \<^verbatim>\<open>1.2.0\<close>, with the newer
  tag \<^verbatim>\<open>1.3.0\<close>; a branch \<^verbatim>\<open>main\<close> without tracking branch whose commit carries the tag
  \<^verbatim>\<open>1.0.0\<close>, with the newer tag \<^verbatim>\<open>2.0.0\<close>; a detached HEAD without tag in a repository
  of fifteen version tags.
\<close>

definition up_to_date_repo :: repo where
  "up_to_date_repo = \<lparr>fetch_ok = True, tag_names = [],
      head_branch = Some ''main'', tracking_branch = Some ''origin/main'',
      behind_tracking = Some 0, tags_at_head = Some [],
      remote_show = Some [''* remote origin'', ''  HEAD branch: main''],
      behind_ref = (\<lambda>ref. Some 0)\<rparr>"

definition behind_and_tagged_repo :: repo where
  "behind_and_tagged_repo = \<lparr>fetch_ok = True,
      tag_names = [''1.2.0'', ''1.3.0'', ''0.9.0'', ''not-a-version''],
      head_branch = Some ''main'', tracking_branch = Some ''origin/main'',
      behind_tracking = Some 2, tags_at_head = Some ''1.2.0'',
      remote_show = Some [''* remote origin'', ''  HEAD branch: main''],
      behind_ref = (\<lambda>ref. Some 2)\<rparr>"

definition branch_with_tag_repo :: repo where
  "branch_with_tag_repo = \<lparr>fetch_ok = True, tag_names = [''1.0.0'', ''2.0.0''],
      head_branch = Some ''main'', tracking_branch = None,
      behind_tracking = None, tags_at_head = Some ''1.0.0'',
      remote_show = Some [''* remote origin'', ''  HEAD branch: main''],
      behind_ref = (\<lambda>ref. Some 0)\<rparr>"

definition fifteen_tags_repo :: repo where
  "fifteen_tags_repo = \<lparr>fetch_ok = True,
      tag_names = [''1.0'', ''2.0'', ''3.0'', ''4.0'', ''5.0'', ''6.0'', ''7.0'', ''8.0'',
                   ''9.0'', ''10.0'', ''11.0'', ''12.0'', ''13.0'', ''14.0'', ''15.0''],
      head_branch = None, tracking_branch = None,
      behind_tracking = None, tags_at_head = Some [],
      remote_show = Some [''* remote origin'', ''  HEAD branch: main''],
      behind_ref = (\<lambda>ref. Some 0)\<rparr>"

section \<open>Properties of the version index\<close>

lemma valid_tags_parse: "(t, v) \<in> set (valid_tags parse ts) \<Longrightarrow> parse t = Some v"
  by (induction ts) (auto split: option.splits)

lemma valid_tags_names: "map fst (valid_tags parse ts) = filter (\<lambda>t. parse t \<noteq> None) ts"
  by (induction ts) (auto split: option.splits)

lemma set_sort_reverse: "set (sort_reverse key xs) = set xs"
  by (simp add: sort_reverse_def)

lemma mset_sort_reverse: "mset (sort_reverse key xs) = mset xs"
  by (simp add: sort_reverse_def)

lemma sort_reverse_descending: "sorted (rev (map key (sort_reverse key xs)))"
  by (simp add: sort_reverse_def rev_map [symmetric])

lemma sort_reverse_stable:
  "filter (\<lambda>x. key x = k) (sort_reverse key xs) = filter (\<lambda>x. key x = k) xs"
proof -
  have "filter (\<lambda>x. key x = k) (sort_reverse key xs)
        = rev (filter (\<lambda>x. key x = k) (sort_key key (rev xs)))"
    by (simp add: sort_reverse_def rev_filter)
  also have "\<dots> = rev (filter (\<lambda>x. key x = k) (rev xs))"
    by (simp only: sort_key_stable)
  also have "\<dots> = filter (\<lambda>x. key x = k) xs"
    by (simp add: rev_filter)
  finally show ?thesis .
qed

lemma sorted_pairs_parse:
  "p \<in> set (sort_reverse snd (valid_tags parse ts)) \<Longrightarrow> parse (fst p) = Some (snd p)"
  by (cases p) (simp add: set_sort_reverse valid_tags_parse)

lemma filter_names_of_pairs:
  assumes "\<And>p. p \<in> set ps \<Longrightarrow> parse (fst p) = Some (snd p)"
  shows "filter (\<lambda>t. parse t = Some v) (map fst ps) = map fst (filter (\<lambda>p. snd p = v) ps)"
  using assms by (induction ps) auto

lemma versions_of_pairs:
  assumes "\<And>p. p \<in> set ps \<Longrightarrow> parse (fst p) = Some (snd p)"
  shows "map (\<lambda>t. the (parse t)) (map fst ps) = map snd ps"
  using assms by (induction ps) auto

lemmas release_defs =
  get_sorted_tags_def sort_reverse_def parse_release_def strip_trailing_zeros_def
  int_of_digits_def digit_val_def is_digit_def

text \<open>
  C4, as amended. For every list of tag names, \<open>get_sorted_tags\<close> returns exactly the
  names that parse (as a multiset: each as often as it is listed), in descending order of
  the parsed version, and the names of one and the same version keep the order in which
  they were listed (the sort is stable). The order is descending but not strictly: two
  names of equal version both stay in the result. The function is total: a name that does
  not parse is passed over and never stops the others.
\<close>

theorem get_sorted_tags_index:
  fixes parse :: "string \<Rightarrow> 'v::linorder option"
  shows "mset (get_sorted_tags parse all_tags) = mset (filter (\<lambda>t. parse t \<noteq> None) all_tags)
       \<and> sorted (rev (map (\<lambda>t. the (parse t)) (get_sorted_tags parse all_tags)))
       \<and> filter (\<lambda>t. parse t = Some v) (get_sorted_tags parse all_tags)
           = filter (\<lambda>t. parse t = Some v) all_tags"
proof (intro conjI)
  let ?ps = "valid_tags parse all_tags"
  let ?qs = "sort_reverse snd ?ps"
  have ok_ps: "\<And>p. p \<in> set ?ps \<Longrightarrow> parse (fst p) = Some (snd p)"
    by (metis prod.collapse valid_tags_parse)
  have ok_qs: "\<And>p. p \<in> set ?qs \<Longrightarrow> parse (fst p) = Some (snd p)"
    by (rule sorted_pairs_parse)
  have "mset (map fst ?qs) = mset (map fst ?ps)"
    by (simp add: mset_sort_reverse)
  then show "mset (get_sorted_tags parse all_tags) = mset (filter (\<lambda>t. parse t \<noteq> None) all_tags)"
    by (simp add: get_sorted_tags_def valid_tags_names)
  have "map (\<lambda>t. the (parse t)) (map fst ?qs) = map snd ?qs"
    using ok_qs by (rule versions_of_pairs)
  then show "sorted (rev (map (\<lambda>t. the (parse t)) (get_sorted_tags parse all_tags)))"
    by (simp only: get_sorted_tags_def sort_reverse_descending)
  have "filter (\<lambda>t. parse t = Some v) (map fst ?qs) = map fst (filter (\<lambda>p. snd p = v) ?qs)"
    using ok_qs by (rule filter_names_of_pairs)
  also have "\<dots> = map fst (filter (\<lambda>p. snd p = v) ?ps)"
    by (simp only: sort_reverse_stable)
  also have "\<dots> = filter (\<lambda>t. parse t = Some v) (map fst ?ps)"
    using ok_ps by (rule filter_names_of_pairs [symmetric])
  also have "\<dots> = filter (\<lambda>t. parse t = Some v) all_tags"
    by (simp add: valid_tags_names) metis
  finally show "filter (\<lambda>t. parse t = Some v) (get_sorted_tags parse all_tags)
           = filter (\<lambda>t. parse t = Some v) all_tags"
    by (simp only: get_sorted_tags_def)
qed

theorem get_sorted_tags_index_witness:
  "get_sorted_tags parse_release [''1.2.0'', ''1.3.0'', ''0.9.0'', ''not-a-version'', ''v1.3'']
     = [''1.3.0'', ''v1.3'', ''1.2.0'', ''0.9.0'']
   \<and> filter (\<lambda>t. parse_release t = Some [1, 3])
        (get_sorted_tags parse_release [''1.2.0'', ''1.3.0'', ''0.9.0'', ''not-a-version'', ''v1.3''])
     = [''1.3.0'', ''v1.3'']"
  using get_sorted_tags_index [of parse_release
          "[''1.2.0'', ''1.3.0'', ''0.9.0'', ''not-a-version'', ''v1.3'']" "[1, 3]"]
  by (simp add: release_defs)

text \<open>
  C4 as it is written asks for a strictly descending order. The tags \<^verbatim>\<open>1.0\<close> and
  \<^verbatim>\<open>1.0.0\<close> are two names of one version: both are in the index, and the index is not
  strictly descending.
\<close>

theorem get_sorted_tags_not_strict:
  "get_sorted_tags parse_release [''1.0'', ''1.0.0''] = [''1.0'', ''1.0.0'']
   \<and> parse_release ''1.0'' = Some [1] \<and> parse_release ''1.0.0'' = Some [1]
   \<and> \<not> sorted_wrt (\<lambda>a b. a > b)
         (map (\<lambda>t. the (parse_release t)) (get_sorted_tags parse_release [''1.0'', ''1.0.0'']))"
  by (simp add: release_defs)

lemmas trace_defs = git_def then_do_def on_exception_def

lemma git_action_no_report:
  "git_action w act tgt reset = Some tr \<Longrightarrow> filter is_report (fst tr) = []"
  by (auto simp: git_action_def trace_defs split: if_splits)

lemma git_action_no_gc:
  "git_action w act tgt reset = Some tr \<Longrightarrow> Git GcAuto \<notin> set (fst tr)"
  by (auto simp: git_action_def trace_defs split: if_splits)

lemma report_requirements_events:
  "e \<in> set (fst (report_requirements w b)) \<Longrightarrow> \<exists>a. e = RequirementsChanged b a"
  by (auto simp: report_requirements_def split: sum.splits if_splits)

lemma takeWhile_before_gc:
  "Git GcAuto \<notin> set es \<Longrightarrow> takeWhile (\<lambda>e. e \<noteq> Git GcAuto) (es @ Git GcAuto # rest) = es"
  by (induction es) auto

lemma perform_update_known:
  assumes "read_requirements (reqs_before w) = Inr before_reqs"
    and "git_action w (action s) (target s) reset = Some (es, err)"
  shows "perform_update w (Some s) reset =
           (case err of
              Some e \<Rightarrow> (es, Some e)
            | None \<Rightarrow>
                if git_ok w GcAuto
                then (es @ Git GcAuto # fst (report_changes w (before_deps w) before_reqs),
                      snd (report_changes w (before_deps w) before_reqs))
                else (es @ [Git GcAuto], Some (GitCommandError GcAuto)))"
  using assms by (simp add: perform_update_def trace_defs split: option.splits)

lemma operations_perform_update:
  assumes "read_requirements (reqs_before w) = Inr before_reqs"
    and "git_action w (action s) (target s) reset = Some (es, err)"
  shows "operations (perform_update w (Some s) reset) = es"
proof -
  have no_gc: "Git GcAuto \<notin> set es"
    using git_action_no_gc [OF assms(2)] by simp
  then have plain: "takeWhile (\<lambda>e. e \<noteq> Git GcAuto) es = es"
    by (auto simp: takeWhile_eq_all_conv)
  show ?thesis
    unfolding operations_def perform_update_known [OF assms]
    using no_gc plain takeWhile_before_gc [OF no_gc]
    by (simp split: option.splits)
qed

section \<open>The operations of each action\<close>

text \<open>
  C2, as amended. In every call where the reading of \<^verbatim>\<open>requirements.txt\<close> before the
  operations raises no decoding error (the file is absent, its reading raises
  \<^verbatim>\<open>IOError\<close>, or it is read), the git commands that \<open>perform_update\<close> runs for the
  selected action before the maintenance pass are these, whichever commands fail.
  \<^verbatim>\<open>checkout\<close> without reset: the checkout of the target. \<^verbatim>\<open>checkout\<close> with reset: the
  checkout of the target, then a fetch, then the hard reset to \<^verbatim>\<open>origin/<target>\<close>; when
  the fetch or that reset fails, the hard reset to the target itself. \<^verbatim>\<open>pull\<close> with
  reset: a fetch, then the hard reset to \<^verbatim>\<open>origin/<target>\<close>, and never a pull.
  \<^verbatim>\<open>pull\<close> without reset: a pull. \<^verbatim>\<open>checkout_pull\<close>: the checkout of the target, then a
  pull (without reset) or the hard reset to \<^verbatim>\<open>origin/<target>\<close> (with reset). A command
  that fails ends the sequence, except inside the fallback of \<^verbatim>\<open>checkout\<close> with reset.
\<close>

theorem perform_update_operations:
  assumes "reqs_before w \<noteq> RequirementsNotUtf8"
  shows "operations (perform_update w (Some \<lparr>action = ''checkout'', target = tgt\<rparr>) False)
           = [Git (Checkout tgt)]
    \<and> operations (perform_update w (Some \<lparr>action = ''checkout'', target = tgt\<rparr>) True)
           = Git (Checkout tgt) #
             (if \<not> git_ok w (Checkout tgt) then []
              else if \<not> git_ok w Fetch then [Git Fetch, Git (ResetHard tgt)]
              else if \<not> git_ok w (ResetHard (''origin/'' @ tgt))
              then [Git Fetch, Git (ResetHard (''origin/'' @ tgt)), Git (ResetHard tgt)]
              else [Git Fetch, Git (ResetHard (''origin/'' @ tgt))])
    \<and> operations (perform_update w (Some \<lparr>action = ''pull'', target = tgt\<rparr>) True)
           = Git Fetch # (if git_ok w Fetch then [Git (ResetHard (''origin/'' @ tgt))] else [])
    \<and> operations (perform_update w (Some \<lparr>action = ''pull'', target = tgt\<rparr>) False)
           = [Git Pull]
    \<and> operations (perform_update w (Some \<lparr>action = ''checkout_pull'', target = tgt\<rparr>) reset)
           = Git (Checkout tgt) #
             (if git_ok w (Checkout tgt)
              then [Git (if reset then ResetHard (''origin/'' @ tgt) else Pull)] else [])"
proof -
  obtain before_reqs where b: "read_requirements (reqs_before w) = Inr before_reqs"
    using assms by (cases "reqs_before w") (simp_all add: read_requirements_def)
  have ops: "\<And>s reset es err. git_action w (action s) (target s) reset = Some (es, err)
              \<Longrightarrow> operations (perform_update w (Some s) reset) = es"
    using b by (rule operations_perform_update)
  have 1: "operations (perform_update w (Some \<lparr>action = ''checkout'', target = tgt\<rparr>) False)
           = [Git (Checkout tgt)]"
    by (rule ops) (simp add: git_action_def trace_defs)
  have 2: "operations (perform_update w (Some \<lparr>action = ''checkout'', target = tgt\<rparr>) True)
           = Git (Checkout tgt) #
             (if \<not> git_ok w (Checkout tgt) then []
              else if \<not> git_ok w Fetch then [Git Fetch, Git (ResetHard tgt)]
              else if \<not> git_ok w (ResetHard (''origin/'' @ tgt))
              then [Git Fetch, Git (ResetHard (''origin/'' @ tgt)), Git (ResetHard tgt)]
              else [Git Fetch, Git (ResetHard (''origin/'' @ tgt))])"
    by (rule ops [where err = "snd (the (git_action w ''checkout'' tgt True))"])
       (simp add: git_action_def trace_defs)
  have 3: "operations (perform_update w (Some \<lparr>action = ''pull'', target = tgt\<rparr>) True)
           = Git Fetch # (if git_ok w Fetch then [Git (ResetHard (''origin/'' @ tgt))] else [])"
    by (rule ops [where err = "snd (the (git_action w ''pull'' tgt True))"])
       (simp add: git_action_def trace_defs)
  have 4: "operations (perform_update w (Some \<lparr>action = ''pull'', target = tgt\<rparr>) False)
           = [Git Pull]"
    by (rule ops) (simp add: git_action_def trace_defs)
  have 5: "operations (perform_update w (Some \<lparr>action = ''checkout_pull'', target = tgt\<rparr>) reset)
           = Git (Checkout tgt) #
             (if git_ok w (Checkout tgt)
              then [Git (if reset then ResetHard (''origin/'' @ tgt) else Pull)] else [])"
    by (rule ops [where err = "snd (the (git_action w ''checkout_pull'' tgt reset))"])
       (simp add: git_action_def trace_defs)
  from 1 2 3 4 5 show ?thesis by (intro conjI)
qed

theorem perform_update_operations_witness:
  "reqs_before quiet_world \<noteq> RequirementsNotUtf8
   \<and> operations (perform_update quiet_world (Some \<lparr>action = ''pull'', target = ''main''\<rparr>) True)
       = [Git Fetch, Git (ResetHard ''origin/main'')]
   \<and> operations (perform_update quiet_world (Some \<lparr>action = ''checkout'', target = ''main''\<rparr>) True)
       = [Git (Checkout ''main''), Git Fetch, Git (ResetHard ''origin/main'')]"
proof -
  have h: "reqs_before quiet_world \<noteq> RequirementsNotUtf8"
    by (simp add: quiet_world_def)
  show ?thesis
    using h perform_update_operations [OF h, of "''main''"]
    by (simp add: quiet_world_def)
qed

text \<open>
  C2 as it is written gives, for \<^verbatim>\<open>checkout\<close> with reset, the checkout followed by the
  hard reset to \<^verbatim>\<open>origin/<target>\<close>, and the reset to the target only when that reset
  fails. With every command succeeding the call runs a fetch between the two; and when
  only the fetch fails, the call resets to the target itself and never tries the reset to
  \<^verbatim>\<open>origin/<target>\<close>, which would succeed.
\<close>

theorem checkout_reset_fetches:
  "perform_update quiet_world (Some \<lparr>action = ''checkout'', target = ''main''\<rparr>) True
     = ([Git (Checkout ''main''), Git Fetch, Git (ResetHard ''origin/main''), Git GcAuto], None)
   \<and> operations (perform_update quiet_world (Some \<lparr>action = ''checkout'', target = ''main''\<rparr>) True)
     \<noteq> [Git (Checkout ''main''), Git (ResetHard ''origin/main'')]
   \<and> perform_update (quiet_world\<lparr>git_ok := (\<lambda>c. c \<noteq> Fetch)\<rparr>)
        (Some \<lparr>action = ''checkout'', target = ''main''\<rparr>) True
     = ([Git (Checkout ''main''), Git Fetch, Git (ResetHard ''main''), Git GcAuto], None)"
  by (simp add: operations_def perform_update_def git_action_def trace_defs quiet_world_def
        read_requirements_def before_deps_def report_changes_def report_requirements_def)

lemma report_changes_events:
  "e \<in> set (fst (report_changes w d b)) \<Longrightarrow> is_report e"
  by (auto simp: report_changes_def report_requirements_def then_do_def
           split: option.splits sum.splits if_splits)

lemma reports_perform_update:
  assumes "read_requirements (reqs_before w) = Inr before_reqs"
    and "git_action w (action s) (target s) reset = Some (es, None)"
    and "git_ok w GcAuto"
  shows "reports (perform_update w (Some s) reset)
           = fst (report_changes w (before_deps w) before_reqs)
       \<and> snd (perform_update w (Some s) reset)
           = snd (report_changes w (before_deps w) before_reqs)"
proof -
  have "filter is_report es = []"
    using git_action_no_report [OF assms(2)] by simp
  moreover have "filter is_report (fst (report_changes w (before_deps w) before_reqs))
                 = fst (report_changes w (before_deps w) before_reqs)"
    by (simp add: report_changes_events)
  ultimately show ?thesis
    by (simp add: reports_def perform_update_known [OF assms(1,2)] assms(3))
qed

lemma report_changes_skipped:
  assumes "d = None \<or> unreadable (pyproject_after w)"
    and "read_requirements (reqs_after w) = Inr after_reqs"
  shows "report_changes w d b
         = (if b \<noteq> after_reqs then [RequirementsChanged b after_reqs] else [], None)"
  using assms
  by (auto simp: report_changes_def report_requirements_def unreadable_def snapshot_deps_def
           split: option.splits)

lemma before_deps_unreadable: "unreadable (pyproject_before w) \<Longrightarrow> before_deps w = None"
  by (auto simp: before_deps_def unreadable_def snapshot_deps_def)

section \<open>Manifests that cannot be read\<close>

lemma requirements_report_is_report: "is_requirements_report e \<Longrightarrow> is_report e"
  by (cases e) simp_all

lemma report_changes_reached:
  assumes "(\<forall>b a. PyprojectChanged b a \<notin> set (fst (report_changes w d before_reqs)))
           \<or> uv_answer w = Some ''requirements''"
    and "read_requirements (reqs_after w) = Inr after_reqs"
  shows "snd (report_changes w d before_reqs) = None
       \<and> filter is_requirements_report (fst (report_changes w d before_reqs))
           = (if before_reqs \<noteq> after_reqs
              then [RequirementsChanged before_reqs after_reqs] else [])"
  using assms
  by (auto simp: report_changes_def report_requirements_def then_do_def
           split: option.splits if_splits)

text \<open>
  C5, as amended. In a run whose git operations and maintenance pass succeed and where
  neither reading of \<^verbatim>\<open>requirements.txt\<close> raises a decoding error (the file is absent,
  its reading raises \<^verbatim>\<open>IOError\<close>, or it is read): when \<^verbatim>\<open>pyproject.toml\<close> is absent or
  unreadable before or after the operations, no change of it is reported, the run raises
  nothing, and \<^verbatim>\<open>requirements.txt\<close> is compared all the same. A \<^verbatim>\<open>requirements.txt\<close> that
  is absent or whose reading raises \<^verbatim>\<open>IOError\<close> is not left out of the comparison: it
  counts as the empty list of lines. Whenever the run reaches the comparison of the
  requirements (no change of \<^verbatim>\<open>pyproject.toml\<close> was reported, or the user answered
  \<^verbatim>\<open>requirements\<close> to the prompt that follows such a report), a change of
  \<^verbatim>\<open>requirements.txt\<close> is reported exactly when the two lists of lines differ.
\<close>

theorem unreadable_manifest_policy:
  assumes "git_action w (action s) (target s) reset = Some (es, None)"
    and "git_ok w GcAuto"
    and "read_requirements (reqs_before w) = Inr before_reqs"
    and "read_requirements (reqs_after w) = Inr after_reqs"
  shows "(unreadable (pyproject_before w) \<or> unreadable (pyproject_after w)
          \<longrightarrow> snd (perform_update w (Some s) reset) = None
              \<and> reports (perform_update w (Some s) reset)
                  = (if before_reqs \<noteq> after_reqs
                     then [RequirementsChanged before_reqs after_reqs] else []))
     \<and> ((\<forall>b a. PyprojectChanged b a \<notin> set (fst (perform_update w (Some s) reset)))
          \<or> uv_answer w = Some ''requirements''
          \<longrightarrow> snd (perform_update w (Some s) reset) = None
              \<and> requirements_reports (perform_update w (Some s) reset)
                  = (if before_reqs \<noteq> after_reqs
                     then [RequirementsChanged before_reqs after_reqs] else []))
     \<and> (reqs_before w = NoRequirements \<or> reqs_before w = RequirementsIOError \<longrightarrow> before_reqs = [])
     \<and> (reqs_after w = NoRequirements \<or> reqs_after w = RequirementsIOError \<longrightarrow> after_reqs = [])"
proof -
  let ?run = "perform_update w (Some s) reset"
  let ?rc = "report_changes w (before_deps w) before_reqs"
  let ?expected = "if before_reqs \<noteq> after_reqs
                   then [RequirementsChanged before_reqs after_reqs] else []"
  note run = reports_perform_update [OF assms(3) assms(1) assms(2)]
  have ev: "fst ?run = es @ Git GcAuto # fst ?rc"
    by (simp add: perform_update_known [OF assms(3) assms(1)] assms(2))
  have skipped: "snd ?run = None \<and> reports ?run = ?expected"
    if "unreadable (pyproject_before w) \<or> unreadable (pyproject_after w)"
  proof -
    have "before_deps w = None \<or> unreadable (pyproject_after w)"
      using that before_deps_unreadable by blast
    then have "?rc = (?expected, None)"
      using assms(4) by (rule report_changes_skipped)
    with run show ?thesis by simp
  qed
  have compared: "snd ?run = None \<and> requirements_reports ?run = ?expected"
    if reach: "(\<forall>b a. PyprojectChanged b a \<notin> set (fst ?run))
               \<or> uv_answer w = Some ''requirements''"
  proof -
    have "(\<forall>b a. PyprojectChanged b a \<notin> set (fst ?rc))
          \<or> uv_answer w = Some ''requirements''"
      using reach unfolding ev by auto
    then have rc: "snd ?rc = None \<and> filter is_requirements_report (fst ?rc) = ?expected"
      using assms(4) by (rule report_changes_reached)
    have quiet: "filter is_requirements_report es = []"
      using git_action_no_report [OF assms(1)]
      by (auto simp: filter_empty_conv dest: requirements_report_is_report)
    show ?thesis
      using rc run quiet by (simp add: requirements_reports_def ev)
  qed
  have b: "reqs_before w = NoRequirements \<or> reqs_before w = RequirementsIOError \<longrightarrow> before_reqs = []"
    using assms(3) by (auto simp: read_requirements_def)
  have a: "reqs_after w = NoRequirements \<or> reqs_after w = RequirementsIOError \<longrightarrow> after_reqs = []"
    using assms(4) by (auto simp: read_requirements_def)
  show ?thesis
    apply (intro conjI)
    subgoal by (rule impI) (rule skipped)
    subgoal by (rule impI) (rule compared)
    subgoal by (rule b)
    subgoal by (rule a)
    done
qed

lemmas update_defs =
  perform_update_def git_action_def git_def then_do_def on_exception_def read_requirements_def
  before_deps_def snapshot_deps_def report_changes_def report_requirements_def

theorem unreadable_manifest_policy_witness:
  "reports (perform_update new_requirements_world (Some \<lparr>action = ''pull'', target = ''main''\<rparr>) False)
     = [RequirementsChanged [] [''requests\<newline>'']]
   \<and> requirements_reports
        (perform_update same_pyproject_world (Some \<lparr>action = ''pull'', target = ''main''\<rparr>) False)
     = [RequirementsChanged [] [''requests\<newline>'']]"
proof -
  let ?w = new_requirements_world
  let ?v = same_pyproject_world
  let ?s = "\<lparr>action = ''pull'', target = ''main''\<rparr>"
  have 2: "git_action ?w (action ?s) (target ?s) False = Some ([Git Pull], None)"
    by (simp add: git_action_def git_def new_requirements_world_def)
  have 3: "git_ok ?w GcAuto" by (simp add: new_requirements_world_def)
  have 4: "unreadable (pyproject_before ?w) \<or> unreadable (pyproject_after ?w)"
    by (simp add: unreadable_def new_requirements_world_def)
  have 5: "read_requirements (reqs_before ?w) = Inr []"
    by (simp add: read_requirements_def new_requirements_world_def)
  have 6: "read_requirements (reqs_after ?w) = Inr [''requests\<newline>'']"
    by (simp add: read_requirements_def new_requirements_world_def)
  have first: "reports (perform_update ?w (Some ?s) False)
     = [RequirementsChanged [] [''requests\<newline>'']]"
    using unreadable_manifest_policy [OF 2 3 5 6] 4 by simp
  have 7: "git_action ?v (action ?s) (target ?s) False = Some ([Git Pull], None)"
    by (simp add: git_action_def git_def same_pyproject_world_def)
  have 8: "git_ok ?v GcAuto" by (simp add: same_pyproject_world_def)
  have 9: "read_requirements (reqs_before ?v) = Inr []"
    by (simp add: read_requirements_def same_pyproject_world_def)
  have 10: "read_requirements (reqs_after ?v) = Inr [''requests\<newline>'']"
    by (simp add: read_requirements_def same_pyproject_world_def)
  have 11: "\<forall>b a. PyprojectChanged b a \<notin> set (fst (perform_update ?v (Some ?s) False))"
    by (simp add: update_defs same_pyproject_world_def)
  have second: "requirements_reports (perform_update ?v (Some ?s) False)
     = [RequirementsChanged [] [''requests\<newline>'']]"
    using unreadable_manifest_policy [OF 7 8 9 10] 11 by simp
  from first second show ?thesis by (intro conjI)
qed

text \<open>
  C5 as it is written reports nothing for a manifest that is absent at one of the two
  points. Here \<^verbatim>\<open>requirements.txt\<close> is absent before a pull and has one line after it:
  the change is reported.
\<close>

theorem absent_requirements_reported:
  "reqs_before new_requirements_world = NoRequirements
   \<and> perform_update new_requirements_world (Some \<lparr>action = ''pull'', target = ''main''\<rparr>) False
     = ([Git Pull, Git GcAuto, RequirementsChanged [] [''requests\<newline>'']], None)"
  by (simp add: update_defs new_requirements_world_def)


lemma perform_update_report_events:
  assumes "e \<in> set (fst (perform_update w sel reset))" and "is_report e"
  shows "\<exists>before_reqs. e \<in> set (fst (report_changes w (before_deps w) before_reqs))"
proof (cases sel)
  case None
  with assms show ?thesis by (simp add: perform_update_def)
next
  case (Some s)
  show ?thesis
  proof (cases "read_requirements (reqs_before w)")
    case (Inl x)
    with Some assms show ?thesis by (simp add: perform_update_def)
  next
    case (Inr before_reqs)
    show ?thesis
    proof (cases "git_action w (action s) (target s) reset")
      case None
      with Some Inr assms show ?thesis by (simp add: perform_update_def)
    next
      case (Some tr)
      obtain es err where tr: "tr = (es, err)" by (cases tr)
      have no: "e \<notin> set es"
        using git_action_no_report [OF Some] assms(2) tr by (auto simp: filter_empty_conv)
      have "e \<in> set (fst (report_changes w (before_deps w) before_reqs))"
        using assms no \<open>sel = Some s\<close>
        by (auto simp: perform_update_known [OF Inr Some [unfolded tr]]
                 split: option.splits if_splits)
      then show ?thesis ..
    qed
  qed
qed

lemma report_changes_pyproject:
  assumes "PyprojectChanged b a \<in> set (fst (report_changes w d before_reqs))"
  shows "d = Some b \<and> snapshot_deps (pyproject_after w) = Some a \<and> b \<noteq> a"
  using assms
  by (auto simp: report_changes_def report_requirements_def then_do_def
           split: option.splits sum.splits if_splits)

lemma pyproject_report_origin:
  assumes "PyprojectChanged b a \<in> set (fst (perform_update w sel reset))"
  shows "uv_installed w \<and> b \<noteq> a
       \<and> (\<exists>d1 d2. pyproject_before w = Pyproject d1 \<and> pyproject_after w = Pyproject d2
                  \<and> b = sort d1 \<and> a = sort d2)"
proof -
  obtain before_reqs where
    "PyprojectChanged b a \<in> set (fst (report_changes w (before_deps w) before_reqs))"
    using perform_update_report_events [OF assms] by auto
  then have "before_deps w = Some b \<and> snapshot_deps (pyproject_after w) = Some a \<and> b \<noteq> a"
    by (rule report_changes_pyproject)
  then show ?thesis
    by (auto simp: before_deps_def snapshot_deps_def split: if_splits pyproject_file.splits)
qed

lemma sort_mset_eq: "mset xs = mset ys \<Longrightarrow> sort xs = sort ys"
  by (rule properties_for_sort) simp_all

lemma report_changes_reaches:
  assumes "(\<forall>b a. PyprojectChanged b a \<notin> set (fst (report_changes w d before_reqs)))
           \<or> uv_answer w = Some ''requirements''"
  shows "set (fst (report_requirements w before_reqs)) \<subseteq> set (fst (report_changes w d before_reqs))"
  using assms
  by (auto simp: report_changes_def then_do_def split: option.splits if_splits)

section \<open>A change of order in the manifests\<close>

text \<open>
  C8. When the dependency array of \<^verbatim>\<open>pyproject.toml\<close> is the same multiset before and
  after, no change of \<^verbatim>\<open>pyproject.toml\<close> is reported, whatever else happens in the call.
  When the lines of \<^verbatim>\<open>requirements.txt\<close> are the same multiset in another order, and the
  call reaches the comparison of the requirements (the git operations and the maintenance
  pass succeed, and either no change of \<^verbatim>\<open>pyproject.toml\<close> was reported or the user
  answered \<^verbatim>\<open>requirements\<close> to the prompt that follows such a report), the change of
  \<^verbatim>\<open>requirements.txt\<close> is reported.
\<close>

theorem manifest_order_sensitivity:
  "(pyproject_before w = Pyproject d1 \<and> pyproject_after w = Pyproject d2 \<and> mset d1 = mset d2
      \<longrightarrow> PyprojectChanged b a \<notin> set (fst (perform_update w sel reset)))
   \<and> (reqs_before w = Requirements l1 \<and> reqs_after w = Requirements l2
        \<and> mset l1 = mset l2 \<and> l1 \<noteq> l2
        \<and> git_action w (action s) (target s) reset = Some (es, None) \<and> git_ok w GcAuto
        \<and> ((\<forall>b a. PyprojectChanged b a \<notin> set (fst (perform_update w (Some s) reset)))
            \<or> uv_answer w = Some ''requirements'')
      \<longrightarrow> RequirementsChanged l1 l2 \<in> set (fst (perform_update w (Some s) reset)))"
proof (intro conjI impI)
  assume "pyproject_before w = Pyproject d1 \<and> pyproject_after w = Pyproject d2 \<and> mset d1 = mset d2"
  then have same: "pyproject_before w = Pyproject d1" "pyproject_after w = Pyproject d2"
    "sort d1 = sort d2"
    using sort_mset_eq [of d1 d2] by simp_all
  show "PyprojectChanged b a \<notin> set (fst (perform_update w sel reset))"
  proof
    assume "PyprojectChanged b a \<in> set (fst (perform_update w sel reset))"
    from pyproject_report_origin [OF this]
    obtain e1 e2 where "b \<noteq> a" "pyproject_before w = Pyproject e1"
      "pyproject_after w = Pyproject e2" "b = sort e1" "a = sort e2"
      by blast
    with same show False by simp
  qed
next
  assume h: "reqs_before w = Requirements l1 \<and> reqs_after w = Requirements l2
        \<and> mset l1 = mset l2 \<and> l1 \<noteq> l2
        \<and> git_action w (action s) (target s) reset = Some (es, None) \<and> git_ok w GcAuto
        \<and> ((\<forall>b a. PyprojectChanged b a \<notin> set (fst (perform_update w (Some s) reset)))
            \<or> uv_answer w = Some ''requirements'')"
  then have rb: "read_requirements (reqs_before w) = Inr l1"
    and ra: "read_requirements (reqs_after w) = Inr l2"
    and ga: "git_action w (action s) (target s) reset = Some (es, None)"
    and gc: "git_ok w GcAuto" and ne: "l1 \<noteq> l2"
    by (simp_all add: read_requirements_def)
  have ev: "fst (perform_update w (Some s) reset)
            = es @ Git GcAuto # fst (report_changes w (before_deps w) l1)"
    by (simp add: perform_update_known [OF rb ga] gc)
  have reach: "(\<forall>b a. PyprojectChanged b a \<notin> set (fst (perform_update w (Some s) reset)))
            \<or> uv_answer w = Some ''requirements''"
    using h by (elim conjE)
  have "(\<forall>b a. PyprojectChanged b a \<notin> set (fst (report_changes w (before_deps w) l1)))
           \<or> uv_answer w = Some ''requirements''"
    using reach unfolding ev by auto
  then have "set (fst (report_requirements w l1)) \<subseteq> set (fst (report_changes w (before_deps w) l1))"
    by (rule report_changes_reaches)
  moreover have "RequirementsChanged l1 l2 \<in> set (fst (report_requirements w l1))"
    using ra ne by (simp add: report_requirements_def)
  ultimately show "RequirementsChanged l1 l2 \<in> set (fst (perform_update w (Some s) reset))"
    using ev by auto
qed

theorem manifest_order_sensitivity_witness:
  "perform_update reordered_world (Some \<lparr>action = ''pull'', target = ''main''\<rparr>) False
     = ([Git Pull, Git GcAuto,
         RequirementsChanged [''a\<newline>'', ''b\<newline>''] [''b\<newline>'', ''a\<newline>'']], None)
   \<and> PyprojectChanged [''a'', ''b''] [''a'', ''b'']
       \<notin> set (fst (perform_update reordered_world (Some \<lparr>action = ''pull'', target = ''main''\<rparr>) False))
   \<and> RequirementsChanged [''a\<newline>'', ''b\<newline>''] [''b\<newline>'', ''a\<newline>'']
       \<in> set (fst (perform_update reordered_world (Some \<lparr>action = ''pull'', target = ''main''\<rparr>) False))"
proof -
  let ?w = reordered_world
  let ?s = "\<lparr>action = ''pull'', target = ''main''\<rparr>"
  have run: "perform_update ?w (Some ?s) False
     = ([Git Pull, Git GcAuto,
         RequirementsChanged [''a\<newline>'', ''b\<newline>''] [''b\<newline>'', ''a\<newline>'']], None)"
    by (simp add: update_defs reordered_world_def)
  have hyp1: "pyproject_before ?w = Pyproject [''a'', ''b'']
      \<and> pyproject_after ?w = Pyproject [''b'', ''a'']
      \<and> mset [''a'', ''b''] = mset [''b'', ''a'']"
    by (simp add: reordered_world_def)
  have hyp2: "reqs_before ?w = Requirements [''a\<newline>'', ''b\<newline>'']
      \<and> reqs_after ?w = Requirements [''b\<newline>'', ''a\<newline>'']
      \<and> mset [''a\<newline>'', ''b\<newline>''] = mset [''b\<newline>'', ''a\<newline>'']
      \<and> [''a\<newline>'', ''b\<newline>''] \<noteq> [''b\<newline>'', ''a\<newline>'']
      \<and> git_action ?w (action ?s) (target ?s) False = Some ([Git Pull], None)
      \<and> git_ok ?w GcAuto
      \<and> ((\<forall>b a. PyprojectChanged b a \<notin> set (fst (perform_update ?w (Some ?s) False)))
          \<or> uv_answer ?w = Some ''requirements'')"
    unfolding run by (simp add: reordered_world_def git_action_def git_def)
  from manifest_order_sensitivity [of ?w "[''a'', ''b'']" "[''b'', ''a'']"
         "[''a'', ''b'']" "[''a'', ''b'']" "Some ?s" False
         "[''a\<newline>'', ''b\<newline>'']" "[''b\<newline>'', ''a\<newline>'']" ?s "[Git Pull]"]
       hyp1 hyp2 run
  show ?thesis by blast
qed

section \<open>Without \<^verbatim>\<open>uv\<close>\<close>

text \<open>
  C10. When no program \<^verbatim>\<open>uv\<close> is found, \<open>perform_update\<close> never reports a change of
  \<^verbatim>\<open>pyproject.toml\<close>; its whole result is the same whatever \<^verbatim>\<open>pyproject.toml\<close> is
  before and after the operations; and every change report of the call is a report of
  \<^verbatim>\<open>requirements.txt\<close>.
\<close>

theorem no_uv_no_pyproject:
  assumes "\<not> uv_installed w"
  shows "PyprojectChanged b a \<notin> set (fst (perform_update w sel reset))
     \<and> perform_update (w\<lparr>pyproject_before := p, pyproject_after := q\<rparr>) sel reset
         = perform_update w sel reset
     \<and> (\<forall>e \<in> set (reports (perform_update w sel reset)).
           \<exists>before_reqs after_reqs. e = RequirementsChanged before_reqs after_reqs)"
proof (intro conjI)
  show no: "PyprojectChanged b a \<notin> set (fst (perform_update w sel reset))" for b a
    using pyproject_report_origin [of b a w sel reset] assms by blast
  show "perform_update (w\<lparr>pyproject_before := p, pyproject_after := q\<rparr>) sel reset
         = perform_update w sel reset"
  proof -
    let ?w' = "w\<lparr>pyproject_before := p, pyproject_after := q\<rparr>"
    have g: "git_action ?w' act tgt reset = git_action w act tgt reset" for act tgt
      by (simp add: git_action_def git_def)
    have d: "before_deps ?w' = None" "before_deps w = None"
      using assms by (simp_all add: before_deps_def)
    have r: "report_changes ?w' None before_reqs = report_changes w None before_reqs"
      for before_reqs
      by (simp add: report_changes_def report_requirements_def)
    show ?thesis
      by (simp add: perform_update_def g d r git_def split: option.splits sum.splits)
  qed
  show "\<forall>e \<in> set (reports (perform_update w sel reset)).
           \<exists>before_reqs after_reqs. e = RequirementsChanged before_reqs after_reqs"
  proof
    fix e assume "e \<in> set (reports (perform_update w sel reset))"
    then have e: "e \<in> set (fst (perform_update w sel reset))" and r: "is_report e"
      by (simp_all add: reports_def)
    show "\<exists>before_reqs after_reqs. e = RequirementsChanged before_reqs after_reqs"
    proof (cases e)
      case (Git c) with r show ?thesis by simp
    next
      case (PyprojectChanged b a) with e no show ?thesis by simp
    next
      case (RequirementsChanged b a) then show ?thesis by blast
    qed
  qed
qed

theorem no_uv_no_pyproject_witness:
  "\<not> uv_installed no_uv_world
   \<and> perform_update no_uv_world (Some \<lparr>action = ''pull'', target = ''main''\<rparr>) False
     = ([Git Pull, Git GcAuto,
         RequirementsChanged [''numpy\<newline>''] [''numpy\<newline>'', ''scipy\<newline>'']], None)
   \<and> PyprojectChanged [''numpy''] [''numpy'', ''scipy'']
       \<notin> set (fst (perform_update no_uv_world (Some \<lparr>action = ''pull'', target = ''main''\<rparr>) False))"
proof -
  have h: "\<not> uv_installed no_uv_world" by (simp add: no_uv_world_def)
  have run: "perform_update no_uv_world (Some \<lparr>action = ''pull'', target = ''main''\<rparr>) False
     = ([Git Pull, Git GcAuto,
         RequirementsChanged [''numpy\<newline>''] [''numpy\<newline>'', ''scipy\<newline>'']], None)"
    by (simp add: update_defs no_uv_world_def)
  from no_uv_no_pyproject [OF h, of "[''numpy'']" "[''numpy'', ''scipy'']"
         "Some \<lparr>action = ''pull'', target = ''main''\<rparr>" False] h run
  show ?thesis by blast
qed

lemmas detect_defs =
  has_remote_updates_def detect_def check_tags_def check_default_branch_def
  detector_current_tag_def current_tags_def latest_of_def truthy_def newer_version_def
  strip_def is_space_def is_space2_def is_space3_def

lemmas menu_defs =
  menu_choices_def menu_current_tag_def current_tags_def latest_of_def pull_choices_def
  default_branch_choices_def latest_tag_choices_def other_tag_choices_def truthy_def
  newer_version_def strip_def is_space_def is_space2_def is_space3_def

section \<open>The maintenance pass\<close>

text \<open>
  C6, as amended. After every action whose git operations succeed, \<open>perform_update\<close> runs
  the maintenance pass \<^verbatim>\<open>git gc --auto\<close>. When the pass succeeds, the comparison of the
  manifests follows. When the pass fails, its error ends \<open>perform_update\<close>: nothing is
  compared and no change is reported; \<open>check_remote_updates\<close> catches the error and ends
  the run with the message that an error occurred.
\<close>

theorem maintenance_then_reports:
  assumes "read_requirements (reqs_before w) = Inr before_reqs"
    and "git_action w (action s) (target s) reset = Some (es, None)"
  shows "perform_update w (Some s) reset
           = (if git_ok w GcAuto
              then (es @ Git GcAuto # fst (report_changes w (before_deps w) before_reqs),
                    snd (report_changes w (before_deps w) before_reqs))
              else (es @ [Git GcAuto], Some (GitCommandError GcAuto)))
     \<and> (\<not> git_ok w GcAuto \<longrightarrow> reports (perform_update w (Some s) reset) = [])
     \<and> (\<not> git_ok w GcAuto \<and> menu_choices parse r reset = Inr choices \<and> choices \<noteq> []
          \<and> ask (choices @ [Separator, Choice ''Cancel'' None]) = Some s
        \<longrightarrow> check_remote_updates parse (Some r) w reset ask
              = AnErrorOccurred (GitCommandError GcAuto) (es @ [Git GcAuto]))"
proof -
  have run: "perform_update w (Some s) reset
           = (if git_ok w GcAuto
              then (es @ Git GcAuto # fst (report_changes w (before_deps w) before_reqs),
                    snd (report_changes w (before_deps w) before_reqs))
              else (es @ [Git GcAuto], Some (GitCommandError GcAuto)))"
    by (simp add: perform_update_known [OF assms])
  have quiet: "filter is_report es = []"
    using git_action_no_report [OF assms(2)] by simp
  have none: "\<not> git_ok w GcAuto \<longrightarrow> reports (perform_update w (Some s) reset) = []"
    using quiet by (simp add: run reports_def)
  have caught: "\<not> git_ok w GcAuto \<and> menu_choices parse r reset = Inr choices \<and> choices \<noteq> []
          \<and> ask (choices @ [Separator, Choice ''Cancel'' None]) = Some s
        \<longrightarrow> check_remote_updates parse (Some r) w reset ask
              = AnErrorOccurred (GitCommandError GcAuto) (es @ [Git GcAuto])"
    by (simp add: check_remote_updates_def run)
  from run none caught show ?thesis by (intro conjI)
qed

theorem maintenance_then_reports_witness:
  "perform_update gc_failure_world (Some \<lparr>action = ''pull'', target = ''main''\<rparr>) True
     = ([Git Fetch, Git (ResetHard ''origin/main''), Git GcAuto], Some (GitCommandError GcAuto))
   \<and> reports (perform_update gc_failure_world (Some \<lparr>action = ''pull'', target = ''main''\<rparr>) True) = []
   \<and> check_remote_updates parse_release (Some up_to_date_repo) gc_failure_world True
        (\<lambda>menu. Some \<lparr>action = ''pull'', target = ''main''\<rparr>)
      = AnErrorOccurred (GitCommandError GcAuto)
          [Git Fetch, Git (ResetHard ''origin/main''), Git GcAuto]"
proof -
  let ?w = gc_failure_world
  let ?s = "\<lparr>action = ''pull'', target = ''main''\<rparr>"
  let ?choices = "[Choice (star @ '' Pull main'') (Some ?s)]"
  have 1: "read_requirements (reqs_before ?w) = Inr [''numpy\<newline>'']"
    by (simp add: read_requirements_def gc_failure_world_def)
  have 2: "git_action ?w (action ?s) (target ?s) True
           = Some ([Git Fetch, Git (ResetHard ''origin/main'')], None)"
    by (simp add: git_action_def trace_defs gc_failure_world_def)
  have 3: "\<not> git_ok ?w GcAuto" by (simp add: gc_failure_world_def)
  have 4: "menu_choices parse_release up_to_date_repo True = Inr ?choices"
    by (simp add: menu_defs release_defs up_to_date_repo_def)
  note t = maintenance_then_reports [OF 1 2, of parse_release up_to_date_repo ?choices
            "\<lambda>menu. Some ?s"]
  have a: "perform_update ?w (Some ?s) True
     = ([Git Fetch, Git (ResetHard ''origin/main''), Git GcAuto], Some (GitCommandError GcAuto))"
    using t 3 by simp
  have b: "reports (perform_update ?w (Some ?s) True) = []"
    using t 3 by blast
  have c: "check_remote_updates parse_release (Some up_to_date_repo) ?w True (\<lambda>menu. Some ?s)
      = AnErrorOccurred (GitCommandError GcAuto)
          [Git Fetch, Git (ResetHard ''origin/main''), Git GcAuto]"
    using t 3 4 by simp
  from a b c show ?thesis by (intro conjI)
qed

text \<open>
  C6 as it is written lets the manifests be compared after a maintenance pass that
  failed. Here \<^verbatim>\<open>requirements.txt\<close> gains a line with the pull: when the pass fails the
  call ends with its error and reports nothing, and the same call with a pass that
  succeeds reports the change.
\<close>

theorem maintenance_failure_stops_reports:
  "perform_update gc_failure_world (Some \<lparr>action = ''pull'', target = ''main''\<rparr>) False
     = ([Git Pull, Git GcAuto], Some (GitCommandError GcAuto))
   \<and> perform_update (gc_failure_world\<lparr>git_ok := (\<lambda>c. True)\<rparr>)
        (Some \<lparr>action = ''pull'', target = ''main''\<rparr>) False
     = ([Git Pull, Git GcAuto,
         RequirementsChanged [''numpy\<newline>''] [''numpy\<newline>'', ''scipy\<newline>'']], None)"
  by (simp add: update_defs gc_failure_world_def)


section \<open>The detector returns the first update it finds\<close>

text \<open>
  C1, as amended. \<open>has_remote_updates\<close> checks the tracked branch, then the tags, then the
  default branch, and returns the first update it finds and no other: its result is a
  flag and at most one description, of type \<^verbatim>\<open>branch\<close>, \<^verbatim>\<open>tag\<close> or
  \<^verbatim>\<open>default_branch\<close>, and the flag says whether there is one. When the branch is behind
  its tracking branch, the result is the \<^verbatim>\<open>branch\<close> update, whatever the tags and the
  default branch are. When the branch is not behind (or there is no tracked branch) and
  the newest valid tag is newer than the current tag, the result is the \<^verbatim>\<open>tag\<close> update,
  whatever the default branch is. When neither holds and the default branch of the remote
  is a positive number of commits ahead of HEAD, the result is the \<^verbatim>\<open>default_branch\<close>
  update. When none of the three holds (the count for the default branch that cannot be
  computed counts as none), the result is no update. A path that is not a repository, a
  fetch that fails, and a lookup that raises before an update is found give no update
  either.
\<close>

theorem has_remote_updates_first_match:
  "(fetch_ok r \<and> head_branch r = Some b \<and> tracking_branch r = Some t
      \<and> behind_tracking r = Some n \<and> 0 < n
    \<longrightarrow> has_remote_updates parse (Some r)
          = (True, Some \<lparr>update_type = ''branch'', current = b, latest = t,
                     behind_count = Some n, message = show_nat n @ '' commits behind''\<rparr>))
   \<and> (fetch_ok r
        \<and> (head_branch r = None \<or> tracking_branch r = None \<or> behind_tracking r = Some 0)
        \<and> tags_at_head r = Some tags_str
        \<and> detector_current_tag r (current_tags tags_str) = Some cur \<and> cur \<noteq> []
        \<and> latest_of (get_sorted_tags parse (tag_names r)) = Some new \<and> new \<noteq> []
        \<and> newer_version parse new cur
    \<longrightarrow> has_remote_updates parse (Some r)
          = (True, Some \<lparr>update_type = ''tag'', current = cur, latest = new,
                     behind_count = None, message = cur @ '' -> '' @ new\<rparr>))
   \<and> (fetch_ok r
        \<and> (head_branch r = None \<or> tracking_branch r = None \<or> behind_tracking r = Some 0)
        \<and> tags_at_head r = Some tags_str
        \<and> \<not> (truthy (latest_of (get_sorted_tags parse (tag_names r)))
               \<and> truthy (detector_current_tag r (current_tags tags_str))
               \<and> newer_version parse (the (latest_of (get_sorted_tags parse (tag_names r))))
                     (the (detector_current_tag r (current_tags tags_str))))
        \<and> remote_show r = Some show_lines
        \<and> find_default_branch show_lines = Inr (Some dflt) \<and> dflt \<noteq> []
        \<and> behind_ref r (''origin/'' @ dflt) = Some m \<and> 0 < m
    \<longrightarrow> has_remote_updates parse (Some r)
          = (True, Some \<lparr>update_type = ''default_branch'', current = ''HEAD'', latest = dflt,
                     behind_count = Some m,
                     message = dflt @ '' is '' @ show_nat m @ '' commits ahead''\<rparr>))
   \<and> (fetch_ok r
        \<and> (head_branch r = None \<or> tracking_branch r = None \<or> behind_tracking r = Some 0)
        \<and> tags_at_head r = Some tags_str
        \<and> \<not> (truthy (latest_of (get_sorted_tags parse (tag_names r)))
               \<and> truthy (detector_current_tag r (current_tags tags_str))
               \<and> newer_version parse (the (latest_of (get_sorted_tags parse (tag_names r))))
                     (the (detector_current_tag r (current_tags tags_str))))
        \<and> remote_show r = Some show_lines
        \<and> find_default_branch show_lines = Inr found_branch
        \<and> (\<not> truthy found_branch
             \<or> behind_ref r (''origin/'' @ the found_branch) = None
             \<or> behind_ref r (''origin/'' @ the found_branch) = Some 0)
    \<longrightarrow> has_remote_updates parse (Some r) = (False, None))
   \<and> (\<not> fetch_ok r
        \<or> (head_branch r \<noteq> None \<and> tracking_branch r \<noteq> None \<and> behind_tracking r = None)
        \<or> ((head_branch r = None \<or> tracking_branch r = None \<or> behind_tracking r = Some 0)
             \<and> tags_at_head r = None)
        \<or> ((head_branch r = None \<or> tracking_branch r = None \<or> behind_tracking r = Some 0)
             \<and> tags_at_head r = Some tags_str
             \<and> \<not> (truthy (latest_of (get_sorted_tags parse (tag_names r)))
                    \<and> truthy (detector_current_tag r (current_tags tags_str))
                    \<and> newer_version parse (the (latest_of (get_sorted_tags parse (tag_names r))))
                          (the (detector_current_tag r (current_tags tags_str))))
             \<and> remote_show r = None)
    \<longrightarrow> has_remote_updates parse (Some r) = (False, None))
   \<and> has_remote_updates parse None = (False, None)
   \<and> (has_remote_updates parse opened = (found, info)
    \<longrightarrow> (found \<longleftrightarrow> info \<noteq> None)
        \<and> (\<forall>c. info = Some c \<longrightarrow>
               update_type c = ''branch'' \<or> update_type c = ''tag''
               \<or> update_type c = ''default_branch''))"
proof -
  let ?not_behind = "head_branch r = None \<or> tracking_branch r = None \<or> behind_tracking r = Some 0"
  let ?newer = "truthy (latest_of (get_sorted_tags parse (tag_names r)))
               \<and> truthy (detector_current_tag r (current_tags tags_str))
               \<and> newer_version parse (the (latest_of (get_sorted_tags parse (tag_names r))))
                     (the (detector_current_tag r (current_tags tags_str)))"
  have to_tags: "detect parse r = check_tags parse r" if "fetch_ok r" and "?not_behind"
    using that by (auto simp: detect_def split: option.splits)
  have to_default: "check_tags parse r = check_default_branch r"
    if "tags_at_head r = Some tags_str" and "\<not> ?newer"
    using that by (auto simp: check_tags_def Let_def)
  have branch_first: "fetch_ok r \<and> head_branch r = Some b \<and> tracking_branch r = Some t
      \<and> behind_tracking r = Some n \<and> 0 < n
    \<longrightarrow> has_remote_updates parse (Some r)
          = (True, Some \<lparr>update_type = ''branch'', current = b, latest = t,
                     behind_count = Some n, message = show_nat n @ '' commits behind''\<rparr>)"
    by (simp add: has_remote_updates_def detect_def)
  have tag_second: "has_remote_updates parse (Some r)
          = (True, Some \<lparr>update_type = ''tag'', current = cur, latest = new,
                     behind_count = None, message = cur @ '' -> '' @ new\<rparr>)"
    if h: "fetch_ok r \<and> ?not_behind
        \<and> tags_at_head r = Some tags_str
        \<and> detector_current_tag r (current_tags tags_str) = Some cur \<and> cur \<noteq> []
        \<and> latest_of (get_sorted_tags parse (tag_names r)) = Some new \<and> new \<noteq> []
        \<and> newer_version parse new cur"
  proof -
    from h have tags: "check_tags parse r
          = Inr (True, Some \<lparr>update_type = ''tag'', current = cur, latest = new,
                     behind_count = None, message = cur @ '' -> '' @ new\<rparr>)"
      by (simp add: check_tags_def truthy_def)
    from h have "detect parse r = check_tags parse r"
      by (intro to_tags) simp_all
    with tags show ?thesis
      by (simp add: has_remote_updates_def)
  qed
  have default_third: "has_remote_updates parse (Some r)
          = (True, Some \<lparr>update_type = ''default_branch'', current = ''HEAD'', latest = dflt,
                     behind_count = Some m,
                     message = dflt @ '' is '' @ show_nat m @ '' commits ahead''\<rparr>)"
    if h: "fetch_ok r \<and> ?not_behind \<and> tags_at_head r = Some tags_str \<and> \<not> ?newer
        \<and> remote_show r = Some show_lines
        \<and> find_default_branch show_lines = Inr (Some dflt) \<and> dflt \<noteq> []
        \<and> behind_ref r (''origin/'' @ dflt) = Some m \<and> 0 < m"
  proof -
    from h have "detect parse r = check_tags parse r"
      by (intro to_tags) simp_all
    moreover from h have "check_tags parse r = check_default_branch r"
      by (intro to_default) simp_all
    moreover from h have "check_default_branch r
          = Inr (True, Some \<lparr>update_type = ''default_branch'', current = ''HEAD'', latest = dflt,
                     behind_count = Some m,
                     message = dflt @ '' is '' @ show_nat m @ '' commits ahead''\<rparr>)"
      by (simp add: check_default_branch_def truthy_def)
    ultimately show ?thesis
      by (simp add: has_remote_updates_def)
  qed
  have no_update: "has_remote_updates parse (Some r) = (False, None)"
    if h: "fetch_ok r \<and> ?not_behind \<and> tags_at_head r = Some tags_str \<and> \<not> ?newer
        \<and> remote_show r = Some show_lines
        \<and> find_default_branch show_lines = Inr found_branch
        \<and> (\<not> truthy found_branch
             \<or> behind_ref r (''origin/'' @ the found_branch) = None
             \<or> behind_ref r (''origin/'' @ the found_branch) = Some 0)"
  proof -
    from h have "detect parse r = check_tags parse r"
      by (intro to_tags) simp_all
    moreover from h have "check_tags parse r = check_default_branch r"
      by (intro to_default) simp_all
    moreover from h have "check_default_branch r = Inr (False, None)"
      by (auto simp: check_default_branch_def)
    ultimately show ?thesis
      by (simp add: has_remote_updates_def)
  qed
  have failure: "has_remote_updates parse (Some r) = (False, None)"
    if h: "\<not> fetch_ok r
        \<or> (head_branch r \<noteq> None \<and> tracking_branch r \<noteq> None \<and> behind_tracking r = None)
        \<or> (?not_behind \<and> tags_at_head r = None)
        \<or> (?not_behind \<and> tags_at_head r = Some tags_str \<and> \<not> ?newer \<and> remote_show r = None)"
  proof (cases "fetch_ok r")
    case False
    then show ?thesis by (simp add: has_remote_updates_def detect_def)
  next
    case True
    from h True consider
        (raise1) "head_branch r \<noteq> None \<and> tracking_branch r \<noteq> None \<and> behind_tracking r = None"
      | (raise2) "?not_behind \<and> tags_at_head r = None"
      | (raise3) "?not_behind \<and> tags_at_head r = Some tags_str \<and> \<not> ?newer \<and> remote_show r = None"
      by blast
    then show ?thesis
    proof cases
      case raise1
      with True show ?thesis
        by (auto simp: has_remote_updates_def detect_def)
    next
      case raise2
      with True have "detect parse r = check_tags parse r"
        by (intro to_tags) simp_all
      with raise2 show ?thesis
        by (simp add: has_remote_updates_def check_tags_def)
    next
      case raise3
      with True have "detect parse r = check_tags parse r"
        by (intro to_tags) simp_all
      moreover from raise3 have "check_tags parse r = check_default_branch r"
        by (intro to_default) simp_all
      ultimately show ?thesis
        using raise3 by (simp add: has_remote_updates_def check_default_branch_def)
    qed
  qed
  have not_opened: "has_remote_updates parse None = (False, None)"
    by (simp add: has_remote_updates_def)
  have d3: "check_default_branch r' = Inr (f, i) \<Longrightarrow>
            (f \<longleftrightarrow> i \<noteq> None) \<and> (\<forall>c. i = Some c \<longrightarrow> update_type c = ''default_branch'')"
    for r' f i
    by (auto simp: check_default_branch_def split: option.splits sum.splits if_splits)
  have d2: "check_tags parse r' = Inr (f, i) \<Longrightarrow>
            (f \<longleftrightarrow> i \<noteq> None)
            \<and> (\<forall>c. i = Some c \<longrightarrow> update_type c = ''tag'' \<or> update_type c = ''default_branch'')"
    for r' f i
    using d3 [of r' f i]
    by (auto simp: check_tags_def Let_def split: option.splits if_splits)
  have d1: "detect parse r' = Inr (f, i) \<Longrightarrow>
            (f \<longleftrightarrow> i \<noteq> None)
            \<and> (\<forall>c. i = Some c \<longrightarrow> update_type c = ''branch'' \<or> update_type c = ''tag''
                    \<or> update_type c = ''default_branch'')"
    for r' f i
    using d2 [of r' f i]
    by (auto simp: detect_def split: option.splits if_splits)
  have single: "(found \<longleftrightarrow> info \<noteq> None)
        \<and> (\<forall>c. info = Some c \<longrightarrow>
               update_type c = ''branch'' \<or> update_type c = ''tag''
               \<or> update_type c = ''default_branch'')"
    if res: "has_remote_updates parse opened = (found, info)"
  proof (cases opened)
    case None
    with res show ?thesis by (simp add: has_remote_updates_def)
  next
    case (Some r')
    show ?thesis
    proof (cases "detect parse r'")
      case (Inl e)
      with Some res show ?thesis by (simp add: has_remote_updates_def)
    next
      case (Inr p)
      with Some res have "detect parse r' = Inr (found, info)"
        by (simp add: has_remote_updates_def)
      then show ?thesis by (rule d1)
    qed
  qed
  show ?thesis
    apply (intro conjI)
    subgoal by (rule branch_first)
    subgoal by (rule impI) (rule tag_second)
    subgoal by (rule impI) (rule default_third)
    subgoal by (rule impI) (rule no_update)
    subgoal by (rule impI) (rule failure)
    subgoal by (rule not_opened)
    subgoal by (rule impI) (rule single)
    done
qed

theorem has_remote_updates_first_match_witness:
  "has_remote_updates parse_release (Some behind_and_tagged_repo)
     = (True, Some \<lparr>update_type = ''branch'', current = ''main'', latest = ''origin/main'',
                behind_count = Some 2, message = ''2 commits behind''\<rparr>)
   \<and> has_remote_updates parse_release (Some (behind_and_tagged_repo\<lparr>behind_tracking := Some 0\<rparr>))
     = (True, Some \<lparr>update_type = ''tag'', current = ''1.2.0'', latest = ''1.3.0'',
                behind_count = None, message = ''1.2.0 -> 1.3.0''\<rparr>)
   \<and> has_remote_updates parse_release
        (Some (behind_and_tagged_repo\<lparr>behind_tracking := Some 0, tags_at_head := Some []\<rparr>))
     = (True, Some \<lparr>update_type = ''default_branch'', current = ''HEAD'', latest = ''main'',
                behind_count = Some 2, message = ''main is 2 commits ahead''\<rparr>)
   \<and> has_remote_updates parse_release
        (Some (behind_and_tagged_repo\<lparr>behind_tracking := Some 0, tags_at_head := Some [],
                 behind_ref := (\<lambda>ref. Some 0)\<rparr>))
     = (False, None)
   \<and> has_remote_updates parse_release (Some (behind_and_tagged_repo\<lparr>fetch_ok := False\<rparr>))
     = (False, None)"
proof -
  let ?r = behind_and_tagged_repo
  let ?p = "behind_and_tagged_repo\<lparr>behind_tracking := Some 0\<rparr>"
  let ?q = "behind_and_tagged_repo\<lparr>behind_tracking := Some 0, tags_at_head := Some []\<rparr>"
  let ?u = "behind_and_tagged_repo\<lparr>behind_tracking := Some 0, tags_at_head := Some [],
                 behind_ref := (\<lambda>ref. Some 0)\<rparr>"
  let ?v = "behind_and_tagged_repo\<lparr>fetch_ok := False\<rparr>"
  have s2: "show_nat 2 = ''2''" by (simp add: show_nat.simps)
  have a: "fetch_ok ?r \<and> head_branch ?r = Some ''main'' \<and> tracking_branch ?r = Some ''origin/main''
      \<and> behind_tracking ?r = Some 2 \<and> 0 < (2::nat)"
    by (simp add: behind_and_tagged_repo_def)
  have b: "fetch_ok ?p
        \<and> (head_branch ?p = None \<or> tracking_branch ?p = None \<or> behind_tracking ?p = Some 0)
        \<and> tags_at_head ?p = Some ''1.2.0''
        \<and> detector_current_tag ?p (current_tags ''1.2.0'') = Some ''1.2.0'' \<and> ''1.2.0'' \<noteq> []
        \<and> latest_of (get_sorted_tags parse_release (tag_names ?p)) = Some ''1.3.0''
        \<and> ''1.3.0'' \<noteq> []
        \<and> newer_version parse_release ''1.3.0'' ''1.2.0''"
    by (simp add: behind_and_tagged_repo_def detect_defs release_defs)
  have c: "fetch_ok ?q
        \<and> (head_branch ?q = None \<or> tracking_branch ?q = None \<or> behind_tracking ?q = Some 0)
        \<and> tags_at_head ?q = Some []
        \<and> \<not> (truthy (latest_of (get_sorted_tags parse_release (tag_names ?q)))
               \<and> truthy (detector_current_tag ?q (current_tags []))
               \<and> newer_version parse_release
                     (the (latest_of (get_sorted_tags parse_release (tag_names ?q))))
                     (the (detector_current_tag ?q (current_tags []))))
        \<and> remote_show ?q = Some [''* remote origin'', ''  HEAD branch: main'']
        \<and> find_default_branch [''* remote origin'', ''  HEAD branch: main''] = Inr (Some ''main'')
        \<and> ''main'' \<noteq> []
        \<and> behind_ref ?q (''origin/'' @ ''main'') = Some 2 \<and> 0 < (2::nat)"
    by (simp add: behind_and_tagged_repo_def detect_defs)
  have d: "fetch_ok ?u
        \<and> (head_branch ?u = None \<or> tracking_branch ?u = None \<or> behind_tracking ?u = Some 0)
        \<and> tags_at_head ?u = Some []
        \<and> \<not> (truthy (latest_of (get_sorted_tags parse_release (tag_names ?u)))
               \<and> truthy (detector_current_tag ?u (current_tags []))
               \<and> newer_version parse_release
                     (the (latest_of (get_sorted_tags parse_release (tag_names ?u))))
                     (the (detector_current_tag ?u (current_tags []))))
        \<and> remote_show ?u = Some [''* remote origin'', ''  HEAD branch: main'']
        \<and> find_default_branch [''* remote origin'', ''  HEAD branch: main''] = Inr (Some ''main'')
        \<and> (\<not> truthy (Some ''main'')
             \<or> behind_ref ?u (''origin/'' @ the (Some ''main'')) = None
             \<or> behind_ref ?u (''origin/'' @ the (Some ''main'')) = Some 0)"
    by (simp add: behind_and_tagged_repo_def detect_defs)
  have e: "\<not> fetch_ok ?v" by (simp add: behind_and_tagged_repo_def)
  have 1: "has_remote_updates parse_release (Some ?r)
     = (True, Some \<lparr>update_type = ''branch'', current = ''main'', latest = ''origin/main'',
                behind_count = Some 2, message = ''2 commits behind''\<rparr>)"
    using has_remote_updates_first_match [of ?r "''main''" "''origin/main''" 2 parse_release] a s2
    by simp
  have 2: "has_remote_updates parse_release (Some ?p)
     = (True, Some \<lparr>update_type = ''tag'', current = ''1.2.0'', latest = ''1.3.0'',
                behind_count = None, message = ''1.2.0 -> 1.3.0''\<rparr>)"
    using has_remote_updates_first_match [of ?p _ _ _ parse_release "''1.2.0''" "''1.2.0''" "''1.3.0''"] b
    by simp
  have 3: "has_remote_updates parse_release (Some ?q)
     = (True, Some \<lparr>update_type = ''default_branch'', current = ''HEAD'', latest = ''main'',
                behind_count = Some 2, message = ''main is 2 commits ahead''\<rparr>)"
    using has_remote_updates_first_match [of ?q _ _ _ parse_release "[]" _ _
            "[''* remote origin'', ''  HEAD branch: main'']" "''main''" 2] c s2
    by simp
  have 4: "has_remote_updates parse_release (Some ?u) = (False, None)"
    using has_remote_updates_first_match [of ?u _ _ _ parse_release "[]" _ _
            "[''* remote origin'', ''  HEAD branch: main'']" _ _ "Some ''main''"] d
    by blast
  have 5: "has_remote_updates parse_release (Some ?v) = (False, None)"
    using has_remote_updates_first_match [of ?v _ _ _ parse_release] e
    by blast
  from 1 2 3 4 5 show ?thesis by (intro conjI)
qed

text \<open>
  C1 as it is written has both updates reported in one pass. Here the branch is two
  commits behind and the tag \<^verbatim>\<open>1.3.0\<close> is newer than the current tag \<^verbatim>\<open>1.2.0\<close>: the
  result is the \<^verbatim>\<open>branch\<close> update alone.
\<close>

theorem behind_and_newer_tag_one_candidate:
  "has_remote_updates parse_release (Some behind_and_tagged_repo)
     = (True, Some \<lparr>update_type = ''branch'', current = ''main'', latest = ''origin/main'',
                behind_count = Some 2, message = ''2 commits behind''\<rparr>)
   \<and> behind_tracking behind_and_tagged_repo = Some 2
   \<and> tags_at_head behind_and_tagged_repo = Some ''1.2.0''
   \<and> get_sorted_tags parse_release (tag_names behind_and_tagged_repo)
       = [''1.3.0'', ''1.2.0'', ''0.9.0'']
   \<and> newer_version parse_release ''1.3.0'' ''1.2.0''"
  by (simp add: behind_and_tagged_repo_def detect_defs release_defs show_nat.simps)

section \<open>The current tag\<close>

text \<open>
  C3, at an input where the menu departs from it. The branch \<^verbatim>\<open>main\<close> is checked out,
  the only tag at its commit is \<^verbatim>\<open>1.0.0\<close>, and \<^verbatim>\<open>2.0.0\<close> is the newest tag. The
  detector takes \<^verbatim>\<open>1.0.0\<close> as the current tag, as no tag is named \<^verbatim>\<open>main\<close>, and
  reports the newer tag. The menu takes the branch name \<^verbatim>\<open>main\<close> as the current tag
  without looking for it among the tags at HEAD; \<^verbatim>\<open>main\<close> is not a version, and the
  entry of \<^verbatim>\<open>2.0.0\<close> is not marked \<^verbatim>\<open>(Latest)\<close>.
\<close>

theorem menu_current_tag_is_branch_name:
  "current_tags ''1.0.0'' = [''1.0.0'']
   \<and> detector_current_tag branch_with_tag_repo [''1.0.0''] = Some ''1.0.0''
   \<and> menu_current_tag branch_with_tag_repo [''1.0.0''] = Some ''main''
   \<and> has_remote_updates parse_release (Some branch_with_tag_repo)
       = (True, Some \<lparr>update_type = ''tag'', current = ''1.0.0'', latest = ''2.0.0'',
                  behind_count = None, message = ''1.0.0 -> 2.0.0''\<rparr>)
   \<and> menu_choices parse_release branch_with_tag_repo False
       = Inr [Choice ''2.0.0'' (Some \<lparr>action = ''checkout'', target = ''2.0.0''\<rparr>),
              Choice ''1.0.0'' (Some \<lparr>action = ''checkout'', target = ''1.0.0''\<rparr>)]"
  by (simp add: branch_with_tag_repo_def detect_defs menu_defs release_defs)

section \<open>The tags of the menu\<close>

text \<open>
  C7, at an input where the menu departs from it. With fifteen valid tags and no current
  tag, the menu has ten tag entries: the newest tag and the nine next ones. The ten
  newest tags are taken first and the newest is then left out of them.
\<close>

theorem fifteen_tags_ten_entries:
  "menu_choices parse_release fifteen_tags_repo False
     = Inr (Choice (star @ '' Checkout and Pull latest remote (main)'')
              (Some \<lparr>action = ''checkout_pull'', target = ''main''\<rparr>)
            # map (\<lambda>tag. Choice tag (Some \<lparr>action = ''checkout'', target = tag\<rparr>))
                [''15.0'', ''14.0'', ''13.0'', ''12.0'', ''11.0'', ''10.0'', ''9.0'', ''8.0'',
                 ''7.0'', ''6.0''])
   \<and> length (filter is_tag_choice
        (case menu_choices parse_release fifteen_tags_repo False of Inl e \<Rightarrow> [] | Inr cs \<Rightarrow> cs)) = 10"
  by (simp add: fifteen_tags_repo_def menu_defs release_defs)


section \<open>The entry of the tracked branch\<close>

lemma default_branch_choices_no_pull: "filter is_pull_choice (default_branch_choices r) = []"
  by (simp add: default_branch_choices_def split: option.splits sum.splits)

lemma latest_tag_choices_no_pull: "filter is_pull_choice (latest_tag_choices parse cur new) = []"
  by (simp add: latest_tag_choices_def Let_def)

lemma other_tag_choices_no_pull: "filter is_pull_choice (other_tag_choices tags new) = []"
  by (simp add: other_tag_choices_def filter_map comp_def)

lemma pull_entries_menu:
  assumes "fetch_ok r" and "tags_at_head r = Some tags_str" and "pull_choices r reset = Inr pull"
  shows "pull_entries (menu_choices parse r reset) = Some (filter is_pull_choice pull)"
  using assms
  by (simp add: pull_entries_def menu_choices_def Let_def default_branch_choices_no_pull
        latest_tag_choices_no_pull other_tag_choices_no_pull)

text \<open>
  C9. When the menu is built for a branch with a tracking branch that is \<open>n\<close> commits
  ahead: without reset the menu has no entry that pulls when \<open>n\<close> is zero, and one entry
  labelled with the count otherwise; with reset it has exactly one such entry, labelled
  with the count only when \<open>n\<close> is positive.
\<close>

theorem pull_choice_of_tracked_branch:
  assumes "fetch_ok r" and "tags_at_head r = Some tags_str"
    and "head_branch r = Some b" and "tracking_branch r = Some t"
    and "behind_tracking r = Some n"
  shows "pull_entries (menu_choices parse r False)
           = Some (if n = 0 then []
                   else [Choice (star @ '' Pull '' @ b @ '' ('' @ show_nat n @ '' commits behind)'')
                           (Some \<lparr>action = ''pull'', target = b\<rparr>)])
     \<and> pull_entries (menu_choices parse r True)
           = Some [Choice (star @ '' Pull '' @ b
                           @ (if n = 0 then [] else '' ('' @ show_nat n @ '' commits behind)''))
                     (Some \<lparr>action = ''pull'', target = b\<rparr>)]"
proof -
  have off: "pull_choices r False
      = Inr (if n = 0 then []
             else [Choice (star @ '' Pull '' @ b @ '' ('' @ show_nat n @ '' commits behind)'')
                     (Some \<lparr>action = ''pull'', target = b\<rparr>)])"
    using assms(3-5) by (simp add: pull_choices_def)
  have on: "pull_choices r True
      = Inr [Choice (star @ '' Pull '' @ b
                     @ (if n = 0 then [] else '' ('' @ show_nat n @ '' commits behind)''))
               (Some \<lparr>action = ''pull'', target = b\<rparr>)]"
    using assms(3-5) by (simp add: pull_choices_def)
  have "pull_entries (menu_choices parse r False)
           = Some (if n = 0 then []
                   else [Choice (star @ '' Pull '' @ b @ '' ('' @ show_nat n @ '' commits behind)'')
                           (Some \<lparr>action = ''pull'', target = b\<rparr>)])"
    by (simp add: pull_entries_menu [OF assms(1,2) off])
  moreover have "pull_entries (menu_choices parse r True)
           = Some [Choice (star @ '' Pull '' @ b
                           @ (if n = 0 then [] else '' ('' @ show_nat n @ '' commits behind)''))
                     (Some \<lparr>action = ''pull'', target = b\<rparr>)]"
    by (simp add: pull_entries_menu [OF assms(1,2) on])
  ultimately show ?thesis by (intro conjI)
qed

theorem pull_choice_of_tracked_branch_witness:
  "pull_entries (menu_choices parse_release up_to_date_repo False) = Some []
   \<and> pull_entries (menu_choices parse_release up_to_date_repo True)
       = Some [Choice (star @ '' Pull main'') (Some \<lparr>action = ''pull'', target = ''main''\<rparr>)]"
proof -
  let ?r = up_to_date_repo
  have 1: "fetch_ok ?r" by (simp add: up_to_date_repo_def)
  have 2: "tags_at_head ?r = Some []" by (simp add: up_to_date_repo_def)
  have 3: "head_branch ?r = Some ''main''" by (simp add: up_to_date_repo_def)
  have 4: "tracking_branch ?r = Some ''origin/main''" by (simp add: up_to_date_repo_def)
  have 5: "behind_tracking ?r = Some 0" by (simp add: up_to_date_repo_def)
  show ?thesis
    using pull_choice_of_tracked_branch [OF 1 2 3 4 5, of parse_release] by simp
qed

end
